theory Spec2Isabelle
  imports Main "HOL-Library.AList"
begin

section \<open>The signaling relay of the screen-sharing server\<close>

text \<open>
  The repository holds two Socket.IO servers with the same room registry and the same
  event handlers: \<^verbatim>\<open>src/api/socket.js\<close>, which also keeps a table of client
  addresses and applies a same-subnet policy in \<^verbatim>\<open>joinRoom\<close>, and
  \<^verbatim>\<open>src/api/socket/index.js\<close>, which has neither. The handlers are embedded once,
  with the deployment as a parameter; the only places where the two files differ are the
  \<^verbatim>\<open>case\<close> distinctions on that parameter.
\<close>

subsection \<open>Data model\<close>

text \<open>
  A connection identity (\<^verbatim>\<open>socket.id\<close>), a room identifier, an address and a
  negotiation payload are JavaScript strings. A room is the object literal built by
  \<^verbatim>\<open>createRoom\<close>; the field \<^verbatim>\<open>hostIP\<close> is absent in
  \<^verbatim>\<open>socket/index.js\<close> (read as \<^verbatim>\<open>undefined\<close>, here \<open>None\<close>).
  \<^verbatim>\<open>viewers\<close> is a JavaScript \<^verbatim>\<open>Set\<close>; its iteration order is only
  used for logging.
\<close>

record room =
  host :: string
  hostIP :: "string option"
  viewers :: "string set"
  isSharing :: bool

text \<open>The events the server sends to clients, with their payloads.\<close>

datatype event =
    RoomCreated string
  | RoomJoined string
  | Error string
  | HostIsSharing string
  | NewViewer string
  | HostStoppedSharing
  | HostDisconnected
  | ViewerLeft string
  | Offer string string
  | Answer string string
  | IceCandidate string string

text \<open>
  The two ways the handlers send: \<^verbatim>\<open>socket.emit(ev)\<close> on the handler's own
  socket, and \<^verbatim>\<open>io.to(target).emit(ev)\<close> to the transport group named
  \<^verbatim>\<open>target\<close>.
\<close>

datatype emission =
    SocketEmit string event
  | IoToEmit string event

text \<open>The only exception a handler can raise: a method call on \<^verbatim>\<open>undefined\<close>.\<close>

datatype error = TypeError

datatype deployment =
    AddressAware string
  | Plain

text \<open>
  \<open>AddressAware ip\<close> is \<^verbatim>\<open>src/api/socket.js\<close>; \<open>ip\<close> is the
  \<^verbatim>\<open>clientIP\<close> that the \<^verbatim>\<open>connection\<close> handler's closure captured when the
  server was initialised. \<open>Plain\<close> is \<^verbatim>\<open>src/api/socket/index.js\<close>.

  The state: \<^verbatim>\<open>rooms\<close> is a JavaScript \<^verbatim>\<open>Map\<close>, which iterates in
  insertion order, so it is an association list with \<open>AList.update\<close> as
  \<^verbatim>\<open>Map.set\<close> (an existing key keeps its place, a new key goes to the end) and
  \<open>AList.delete\<close> as \<^verbatim>\<open>Map.delete\<close>. \<^verbatim>\<open>clientIPs\<close> is never iterated, so it
  is a map. \<open>members\<close> is the transport's table of groups (Socket.IO rooms): the sockets
  that have joined each named group. \<open>outbox\<close> lists the emissions in the order the
  handlers made them.
\<close>

record server =
  rooms :: "(string \<times> room) list"
  clientIPs :: "string \<rightharpoonup> string"
  members :: "string \<Rightarrow> string set"
  outbox :: "emission list"

definition init :: server where
  "init = \<lparr>rooms = [], clientIPs = Map.empty, members = (\<lambda>_. {}), outbox = []\<rparr>"

subsection \<open>Primitive effects\<close>

definition socket_emit :: "string \<Rightarrow> event \<Rightarrow> server \<Rightarrow> server" where
  "socket_emit sid ev s = s\<lparr>outbox := outbox s @ [SocketEmit sid ev]\<rparr>"

definition io_to_emit :: "string \<Rightarrow> event \<Rightarrow> server \<Rightarrow> server" where
  "io_to_emit target ev s = s\<lparr>outbox := outbox s @ [IoToEmit target ev]\<rparr>"

definition socket_join :: "string \<Rightarrow> string \<Rightarrow> server \<Rightarrow> server" where
  "socket_join sid grp s = s\<lparr>members := (members s)(grp := insert sid (members s grp))\<rparr>"

definition socket_leaveAll :: "string \<Rightarrow> server \<Rightarrow> server" where
  "socket_leaveAll sid s = s\<lparr>members := (\<lambda>grp. members s grp - {sid})\<rparr>"

definition rooms_get :: "server \<Rightarrow> string \<Rightarrow> room option" where
  "rooms_get s rid = map_of (rooms s) rid"

definition rooms_set :: "string \<Rightarrow> room \<Rightarrow> server \<Rightarrow> server" where
  "rooms_set rid r s = s\<lparr>rooms := AList.update rid r (rooms s)\<rparr>"

definition rooms_delete :: "string \<Rightarrow> server \<Rightarrow> server" where
  "rooms_delete rid s = s\<lparr>rooms := AList.delete rid (rooms s)\<rparr>"

text \<open>
  A handler holds a reference to the room object stored in the table, so an assignment
  to one of its fields changes the table's entry.
\<close>

definition viewers_add :: "string \<Rightarrow> string \<Rightarrow> server \<Rightarrow> server" where
  "viewers_add rid sid s =
     s\<lparr>rooms := AList.map_entry rid (\<lambda>r. r\<lparr>viewers := insert sid (viewers r)\<rparr>) (rooms s)\<rparr>"

definition viewers_delete :: "string \<Rightarrow> string \<Rightarrow> server \<Rightarrow> server" where
  "viewers_delete rid sid s =
     s\<lparr>rooms := AList.map_entry rid (\<lambda>r. r\<lparr>viewers := viewers r - {sid}\<rparr>) (rooms s)\<rparr>"

definition set_isSharing :: "string \<Rightarrow> bool \<Rightarrow> server \<Rightarrow> server" where
  "set_isSharing rid b s =
     s\<lparr>rooms := AList.map_entry rid (\<lambda>r. r\<lparr>isSharing := b\<rparr>) (rooms s)\<rparr>"

subsection \<open>The address helpers of \<^verbatim>\<open>socket.js\<close>\<close>

fun startsWith :: "string \<Rightarrow> string \<Rightarrow> bool" where
  "startsWith s [] = True"
| "startsWith [] (p # ps) = False"
| "startsWith (c # cs) (p # ps) = (c = p \<and> startsWith cs ps)"

text \<open>The regular expression \<^verbatim>\<open>/^172\.(1[6-9]|2[0-9]|3[0-1])\./\<close>.\<close>

fun match172 :: "string \<Rightarrow> bool" where
  "match172 (c1 # c2 # c3 # c4 # a # b # d # rest) =
     ([c1, c2, c3, c4] = ''172.'' \<and>
      ((a = CHR ''1'' \<and> b \<in> set ''6789'') \<or>
       (a = CHR ''2'' \<and> b \<in> set ''0123456789'') \<or>
       (a = CHR ''3'' \<and> b \<in> set ''01'')) \<and>
      d = CHR ''.'')"
| "match172 _ = False"

definition isLocalIP :: "string \<Rightarrow> bool" where
  "isLocalIP ip =
     (if ip = ''127.0.0.1'' \<or> ip = ''localhost'' then True
      else startsWith ip ''10.'' \<or> startsWith ip ''192.168.'' \<or> match172 ip)"

text \<open>\<^verbatim>\<open>String.prototype.lastIndexOf\<close> for a one-character needle: \<open>-1\<close> when absent.\<close>

fun lastIndexOf :: "string \<Rightarrow> char \<Rightarrow> int" where
  "lastIndexOf [] c = - 1"
| "lastIndexOf (x # xs) c =
     (let r = lastIndexOf xs c
      in if r \<noteq> - 1 then r + 1 else if x = c then 0 else - 1)"

text \<open>
  \<^verbatim>\<open>String.prototype.substring\<close>: both indices are clamped to the string, and
  swapped when the first is the larger.
\<close>

definition substring :: "string \<Rightarrow> int \<Rightarrow> int \<Rightarrow> string" where
  "substring s i j =
     (let n = int (length s);
          a = max 0 (min i n);
          b = max 0 (min j n)
      in drop (nat (min a b)) (take (nat (max a b)) s))"

definition getLocalSubnetPrefix :: "string \<Rightarrow> string option" where
  "getLocalSubnetPrefix ip =
     (if \<not> isLocalIP ip then None
      else let lastDotIndex = lastIndexOf ip CHR ''.''
           in if lastDotIndex \<noteq> - 1 then Some (substring ip 0 (lastDotIndex + 1)) else None)"

definition areOnSameLocalNetwork :: "string \<Rightarrow> string \<Rightarrow> bool" where
  "areOnSameLocalNetwork ip1 ip2 =
     (if \<not> isLocalIP ip1 \<or> \<not> isLocalIP ip2 then False
      else let prefix1 = getLocalSubnetPrefix ip1; prefix2 = getLocalSubnetPrefix ip2
           in prefix1 \<noteq> None \<and> prefix1 = prefix2)"

subsection \<open>Event handlers\<close>

text \<open>
  Each handler takes the identity \<open>sid\<close> of the socket it was registered on
  (\<^verbatim>\<open>socket.id\<close> of the enclosing \<^verbatim>\<open>connection\<close> callback), the payload and the
  state. Payloads are well-formed: room identifiers, addresses and the fields
  \<^verbatim>\<open>to\<close>, \<^verbatim>\<open>from\<close> are strings.
\<close>

definition connection :: "deployment \<Rightarrow> string \<Rightarrow> server \<Rightarrow> server" where
  "connection d sid s =
     (case d of
        AddressAware clientIP \<Rightarrow> s\<lparr>clientIPs := (clientIPs s)(sid \<mapsto> clientIP)\<rparr>
      | Plain \<Rightarrow> s)"

definition registerIP :: "deployment \<Rightarrow> string \<Rightarrow> string \<Rightarrow> server \<Rightarrow> server" where
  "registerIP d sid ip s =
     (case d of
        AddressAware _ \<Rightarrow> s\<lparr>clientIPs := (clientIPs s)(sid \<mapsto> ip)\<rparr>
      | Plain \<Rightarrow> s)"

definition createRoom :: "deployment \<Rightarrow> string \<Rightarrow> string \<Rightarrow> server \<Rightarrow> server" where
  "createRoom d sid roomId s =
     (let s1 = rooms_set roomId
                 \<lparr>host = sid,
                  hostIP = (case d of AddressAware _ \<Rightarrow> clientIPs s sid | Plain \<Rightarrow> None),
                  viewers = {},
                  isSharing = False\<rparr> s;
          s2 = socket_join sid roomId s1
      in socket_emit sid (RoomCreated roomId) s2)"

text \<open>
  The test \<^verbatim>\<open>!sameNetwork && isLocalIP(hostIP) && isLocalIP(viewerIP)\<close> of
  \<^verbatim>\<open>joinRoom\<close> in \<^verbatim>\<open>socket.js\<close>, with
  \<^verbatim>\<open>sameNetwork = areOnSameLocalNetwork(hostIP, viewerIP)\<close>. An address missing from
  \<^verbatim>\<open>clientIPs\<close> is \<^verbatim>\<open>undefined\<close>, and \<^verbatim>\<open>isLocalIP(undefined)\<close> throws;
  both expressions look at \<^verbatim>\<open>hostIP\<close> first and, by short-circuit evaluation, at
  \<^verbatim>\<open>viewerIP\<close> only when \<^verbatim>\<open>hostIP\<close> is local. \<^verbatim>\<open>socket/index.js\<close> has no
  such test.
\<close>

definition network_restricted ::
  "deployment \<Rightarrow> string option \<Rightarrow> string option \<Rightarrow> error + bool" where
  "network_restricted d host_ip viewer_ip =
     (case d of
        Plain \<Rightarrow> Inr False
      | AddressAware _ \<Rightarrow>
          (case host_ip of
             None \<Rightarrow> Inl TypeError
           | Some hip \<Rightarrow>
               if \<not> isLocalIP hip then Inr False
               else (case viewer_ip of
                       None \<Rightarrow> Inl TypeError
                     | Some vip \<Rightarrow>
                         (let sameNetwork = areOnSameLocalNetwork hip vip
                          in Inr (\<not> sameNetwork \<and> isLocalIP hip \<and> isLocalIP vip)))))"

definition joinRoom :: "deployment \<Rightarrow> string \<Rightarrow> string \<Rightarrow> server \<Rightarrow> error + server" where
  "joinRoom d sid roomId s =
     (case rooms_get s roomId of
        Some room \<Rightarrow>
          (case network_restricted d (clientIPs s (host room)) (clientIPs s sid) of
             Inl e \<Rightarrow> Inl e
           | Inr True \<Rightarrow>
               Inr (socket_emit sid
                      (Error ''You can only join rooms from the same local network'') s)
           | Inr False \<Rightarrow>
               (let s1 = viewers_add roomId sid s;
                    s2 = socket_join sid roomId s1;
                    s3 = socket_emit sid (RoomJoined roomId) s2
                in Inr (if isSharing room then socket_emit sid (HostIsSharing roomId) s3
                        else s3)))
      | None \<Rightarrow> Inr (socket_emit sid (Error ''Room not found'') s))"

text \<open>
  \<^verbatim>\<open>if (room && room.host)\<close>: a room object is always truthy; a string is truthy
  unless it is empty.
\<close>

definition viewerJoined :: "string \<Rightarrow> string \<Rightarrow> server \<Rightarrow> server" where
  "viewerJoined sid roomId s =
     (case rooms_get s roomId of
        Some room \<Rightarrow> if host room \<noteq> [] then io_to_emit (host room) (NewViewer sid) s else s
      | None \<Rightarrow> s)"

definition startScreenShare :: "string \<Rightarrow> string \<Rightarrow> server \<Rightarrow> server" where
  "startScreenShare sid roomId s =
     (case rooms_get s roomId of
        Some room \<Rightarrow> set_isSharing roomId True s
      | None \<Rightarrow> s)"

definition stopScreenShare :: "string \<Rightarrow> string \<Rightarrow> server \<Rightarrow> server" where
  "stopScreenShare sid roomId s =
     (case rooms_get s roomId of
        Some room \<Rightarrow> io_to_emit roomId HostStoppedSharing (set_isSharing roomId False s)
      | None \<Rightarrow> s)"

definition offer :: "string \<Rightarrow> string \<Rightarrow> string \<Rightarrow> string \<Rightarrow> server \<Rightarrow> server" where
  "offer sid to from payload s = io_to_emit to (Offer from payload) s"

definition answer :: "string \<Rightarrow> string \<Rightarrow> string \<Rightarrow> string \<Rightarrow> server \<Rightarrow> server" where
  "answer sid to from payload s = io_to_emit to (Answer from payload) s"

text \<open>
  The loop \<^verbatim>\<open>for (const [roomId, room] of rooms.entries())\<close> of
  \<^verbatim>\<open>iceCandidate\<close>: \<open>None\<close> is \<^verbatim>\<open>hostId = null\<close>, and the first room whose
  viewers hold \<^verbatim>\<open>from\<close> ends the loop (\<^verbatim>\<open>break\<close>).
\<close>

fun find_hostId :: "string \<Rightarrow> (string \<times> room) list \<Rightarrow> string option" where
  "find_hostId from [] = None"
| "find_hostId from ((roomId, room) # rest) =
     (if from \<in> viewers room then Some (host room) else find_hostId from rest)"

definition iceCandidate :: "string \<Rightarrow> string \<Rightarrow> string \<Rightarrow> string \<Rightarrow> server \<Rightarrow> server" where
  "iceCandidate sid to from candidate s =
     (if to = ''host'' then
        (case find_hostId from (rooms s) of
           Some hostId \<Rightarrow>
             if hostId \<noteq> [] then io_to_emit hostId (IceCandidate from candidate) s else s
         | None \<Rightarrow> s)
      else io_to_emit to (IceCandidate from candidate) s)"

text \<open>
  The callback of \<^verbatim>\<open>rooms.forEach\<close> in the \<^verbatim>\<open>disconnect\<close> handler. It deletes
  only the entry it is visiting and changes only that entry's room, so the entries
  \<^verbatim>\<open>forEach\<close> visits, and the values it passes, are those present when it starts.
\<close>

definition disconnect_callback :: "string \<Rightarrow> room \<Rightarrow> string \<Rightarrow> server \<Rightarrow> server" where
  "disconnect_callback sid room roomId s =
     (if host room = sid then rooms_delete roomId (io_to_emit roomId HostDisconnected s)
      else if sid \<in> viewers room then
        (let s1 = viewers_delete roomId sid s
         in if host room \<noteq> [] then io_to_emit (host room) (ViewerLeft sid) s1 else s1)
      else s)"

fun rooms_forEach ::
  "(room \<Rightarrow> string \<Rightarrow> server \<Rightarrow> server) \<Rightarrow> (string \<times> room) list \<Rightarrow> server \<Rightarrow> server" where
  "rooms_forEach f [] s = s"
| "rooms_forEach f ((roomId, room) # rest) s = rooms_forEach f rest (f room roomId s)"

definition disconnect :: "deployment \<Rightarrow> string \<Rightarrow> server \<Rightarrow> server" where
  "disconnect d sid s =
     (let s1 = rooms_forEach (disconnect_callback sid) (rooms s) s
      in case d of
           AddressAware _ \<Rightarrow> s1\<lparr>clientIPs := (clientIPs s1)(sid := None)\<rparr>
         | Plain \<Rightarrow> s1)"

subsection \<open>The server as a transition system\<close>

text \<open>
  The events a client connection raises. The transport itself acts at both ends of a
  connection's life: a new socket is put in the group named by its own identity before
  \<^verbatim>\<open>connection\<close> fires, and a closing socket has left all its groups when
  \<^verbatim>\<open>disconnect\<close> fires.
\<close>

datatype inbound =
    OnConnection string
  | OnRegisterIP string string
  | OnCreateRoom string string
  | OnJoinRoom string string
  | OnViewerJoined string string
  | OnStartScreenShare string string
  | OnStopScreenShare string string
  | OnOffer string string string string
  | OnAnswer string string string string
  | OnIceCandidate string string string string
  | OnDisconnect string

fun step :: "deployment \<Rightarrow> inbound \<Rightarrow> server \<Rightarrow> error + server" where
  "step d (OnConnection sid) s = Inr (connection d sid (socket_join sid sid s))"
| "step d (OnRegisterIP sid ip) s = Inr (registerIP d sid ip s)"
| "step d (OnCreateRoom sid roomId) s = Inr (createRoom d sid roomId s)"
| "step d (OnJoinRoom sid roomId) s = joinRoom d sid roomId s"
| "step d (OnViewerJoined sid roomId) s = Inr (viewerJoined sid roomId s)"
| "step d (OnStartScreenShare sid roomId) s = Inr (startScreenShare sid roomId s)"
| "step d (OnStopScreenShare sid roomId) s = Inr (stopScreenShare sid roomId s)"
| "step d (OnOffer sid to from payload) s = Inr (offer sid to from payload s)"
| "step d (OnAnswer sid to from payload) s = Inr (answer sid to from payload s)"
| "step d (OnIceCandidate sid to from candidate) s = Inr (iceCandidate sid to from candidate s)"
| "step d (OnDisconnect sid) s = Inr (disconnect d sid (socket_leaveAll sid s))"

text \<open>A run stops at the first uncaught exception.\<close>

fun run :: "deployment \<Rightarrow> inbound list \<Rightarrow> server \<Rightarrow> error + server" where
  "run d [] s = Inr s"
| "run d (e # es) s = (case step d e s of Inl err \<Rightarrow> Inl err | Inr s' \<Rightarrow> run d es s')"

text \<open>
  Who an emission is delivered to: \<^verbatim>\<open>socket.emit\<close> reaches the socket itself,
  \<^verbatim>\<open>io.to(target).emit\<close> the sockets that are in the group \<^verbatim>\<open>target\<close> when
  it is called.
\<close>

fun recipients :: "server \<Rightarrow> emission \<Rightarrow> string set" where
  "recipients s (SocketEmit sid ev) = {sid}"
| "recipients s (IoToEmit target ev) = members s target"

subsection \<open>What the disconnect sweep does to one entry\<close>

text \<open>
  Two functions used to state and prove properties of \<open>disconnect\<close>: what becomes of
  one entry of the table (\<open>None\<close>: deleted), and what the callback emits for it.
\<close>

definition sweep_entry :: "string \<Rightarrow> string \<times> room \<Rightarrow> (string \<times> room) option" where
  "sweep_entry sid e =
     (if host (snd e) = sid then None
      else if sid \<in> viewers (snd e)
           then Some (fst e, (snd e)\<lparr>viewers := viewers (snd e) - {sid}\<rparr>)
           else Some e)"

definition sweep_out :: "string \<Rightarrow> string \<times> room \<Rightarrow> emission list" where
  "sweep_out sid e =
     (if host (snd e) = sid then [IoToEmit (fst e) HostDisconnected]
      else if sid \<in> viewers (snd e) \<and> host (snd e) \<noteq> []
           then [IoToEmit (host (snd e)) (ViewerLeft sid)]
           else [])"

subsection \<open>The join policy in the words of the specification\<close>

text \<open>
  The specification speaks of the first three dotted-decimal octets of an address.
  \<open>split_dot\<close> cuts a string at its dots; the first three octets are the first three
  pieces, and an address is a dotted quad when it has four. \<open>network_part\<close> is all
  pieces but the last, whatever their number, and \<open>join_dots\<close> writes pieces back with
  a dot after each.
\<close>

fun split_dot :: "string \<Rightarrow> string list" where
  "split_dot [] = [] # []"
| "split_dot (c # cs) =
     (if c = CHR ''.'' then [] # split_dot cs
      else (case split_dot cs of w # ws \<Rightarrow> (c # w) # ws | [] \<Rightarrow> [c] # []))"

definition first_three_octets :: "string \<Rightarrow> string list" where
  "first_three_octets ip = take 3 (split_dot ip)"

definition dotted_quad :: "string \<Rightarrow> bool" where
  "dotted_quad ip = (length (split_dot ip) = 4)"

definition network_part :: "string \<Rightarrow> string list" where
  "network_part ip = butlast (split_dot ip)"

definition join_dots :: "string list \<Rightarrow> string" where
  "join_dots ws = concat (map (\<lambda>w. w @ ''.'') ws)"

text \<open>The message of the rejection in \<^verbatim>\<open>joinRoom\<close>.\<close>

definition local_network_error :: string where
  "local_network_error = ''You can only join rooms from the same local network''"

subsection \<open>Invariants and event sequences\<close>

text \<open>
  \<open>registry_ok\<close> collects what every state between two events satisfies: the keys of
  \<^verbatim>\<open>rooms\<close> are unique, every host identity is a non-empty string, and the viewers
  of a room are members of the transport group named by the room. \<open>socket_of\<close> is the
  socket an event arrives on; Socket.IO gives every socket a non-empty identity.
\<close>

definition registry_ok :: "server \<Rightarrow> bool" where
  "registry_ok s =
     (distinct (map fst (rooms s)) \<and>
      (\<forall>e \<in> set (rooms s). host (snd e) \<noteq> [] \<and> viewers (snd e) \<subseteq> members s (fst e)))"

fun socket_of :: "inbound \<Rightarrow> string" where
  "socket_of (OnConnection sid) = sid"
| "socket_of (OnRegisterIP sid ip) = sid"
| "socket_of (OnCreateRoom sid roomId) = sid"
| "socket_of (OnJoinRoom sid roomId) = sid"
| "socket_of (OnViewerJoined sid roomId) = sid"
| "socket_of (OnStartScreenShare sid roomId) = sid"
| "socket_of (OnStopScreenShare sid roomId) = sid"
| "socket_of (OnOffer sid to from payload) = sid"
| "socket_of (OnAnswer sid to from payload) = sid"
| "socket_of (OnIceCandidate sid to from candidate) = sid"
| "socket_of (OnDisconnect sid) = sid"

text \<open>
  \<open>host_not_viewer\<close>: no room has its own host among its viewers. An event is a
  self-join when it is \<^verbatim>\<open>joinRoom\<close> for a room whose current host is the joining
  socket; \<open>self_join_free\<close> runs a sequence of events and says that none of them is.
\<close>

definition host_not_viewer :: "server \<Rightarrow> bool" where
  "host_not_viewer s = (\<forall>e \<in> set (rooms s). host (snd e) \<notin> viewers (snd e))"

fun is_self_join :: "inbound \<Rightarrow> server \<Rightarrow> bool" where
  "is_self_join (OnJoinRoom sid roomId) s =
     (case rooms_get s roomId of Some room \<Rightarrow> host room = sid | None \<Rightarrow> False)"
| "is_self_join _ s = False"

fun self_join_free :: "deployment \<Rightarrow> inbound list \<Rightarrow> server \<Rightarrow> bool" where
  "self_join_free d [] s = True"
| "self_join_free d (e # es) s =
     (\<not> is_self_join e s \<and>
      (case step d e s of Inl err \<Rightarrow> True | Inr s' \<Rightarrow> self_join_free d es s'))"

subsection \<open>A sample state\<close>

text \<open>
  Two rooms: \<open>R\<close>, hosted by \<open>h1\<close> and being shared, with viewers \<open>v1\<close> and \<open>v2\<close>;
  \<open>Q\<close>, hosted by \<open>h2\<close>, with viewer \<open>v2\<close>. \<open>v3\<close> is connected and in no room.
\<close>

definition demo_room :: room where
  "demo_room =
     \<lparr>host = ''h1'', hostIP = Some ''192.168.1.10'', viewers = {''v1'', ''v2''},
      isSharing = True\<rparr>"

definition demo :: server where
  "demo =
     \<lparr>rooms = [(''R'', demo_room),
               (''Q'', \<lparr>host = ''h2'', hostIP = Some ''8.8.8.8'', viewers = {''v2''},
                        isSharing = False\<rparr>)],
      clientIPs = [''h1'' \<mapsto> ''192.168.1.10'', ''h2'' \<mapsto> ''8.8.8.8'',
                   ''v1'' \<mapsto> ''192.168.1.55'', ''v2'' \<mapsto> ''192.168.2.20'',
                   ''v3'' \<mapsto> ''192.168.1.77''],
      members = (\<lambda>_. {})(''R'' := {''h1'', ''v1'', ''v2''}, ''Q'' := {''h2'', ''v2''},
                  ''h1'' := {''h1''}, ''h2'' := {''h2''}, ''v1'' := {''v1''},
                  ''v2'' := {''v2''}, ''v3'' := {''v3''}),
      outbox = []\<rparr>"

text \<open>
  A host \<open>h\<close> and a second connection \<open>v\<close> that have both registered the address
  \<open>localhost\<close>; \<open>h\<close> has created room \<open>R\<close>.
\<close>

definition localhost_demo :: server where
  "localhost_demo =
     \<lparr>rooms = [(''R'', \<lparr>host = ''h'', hostIP = Some ''localhost'', viewers = {},
                        isSharing = False\<rparr>)],
      clientIPs = [''h'' \<mapsto> ''localhost'', ''v'' \<mapsto> ''localhost''],
      members = (\<lambda>_. {})(''h'' := {''h''}, ''R'' := {''h''}, ''v'' := {''v''}),
      outbox = [SocketEmit ''h'' (RoomCreated ''R'')]\<rparr>"

text \<open>
  Two sequences of events: a host \<open>h\<close> that creates the rooms \<open>A\<close> and \<open>B\<close>, both
  joined by \<open>v\<close>; and a host \<open>h\<close> that creates room \<open>R\<close> and joins it itself.
\<close>

definition two_rooms_events :: "inbound list" where
  "two_rooms_events =
     [OnConnection ''h'', OnCreateRoom ''h'' ''A'', OnCreateRoom ''h'' ''B'',
      OnConnection ''v'', OnJoinRoom ''v'' ''A'', OnJoinRoom ''v'' ''B'']"

definition self_join_events :: "inbound list" where
  "self_join_events = [OnConnection ''h'', OnCreateRoom ''h'' ''R'', OnJoinRoom ''h'' ''R'']"

section \<open>Properties\<close>

subsection \<open>Lookups\<close>

lemmas handler_defs =
  init_def connection_def registerIP_def createRoom_def joinRoom_def viewerJoined_def
  startScreenShare_def stopScreenShare_def offer_def answer_def iceCandidate_def
  disconnect_def disconnect_callback_def network_restricted_def
  socket_emit_def io_to_emit_def socket_join_def socket_leaveAll_def rooms_get_def
  rooms_set_def rooms_delete_def viewers_add_def viewers_delete_def set_isSharing_def

lemma map_of_map_entry_if:
  "map_of (AList.map_entry k f xs) k' =
     (if k' = k then map_option f (map_of xs k) else map_of xs k')"
  by (simp add: map_of_map_entry split: option.splits)

subsection \<open>Joining and creating rooms\<close>

text \<open>
  Claim C5. For a room identifier that is not in the registry, \<open>joinRoom\<close> from any
  connection, in either deployment, returns normally; it sends
  \<open>error('Room not found')\<close> to the joining connection, and the state it returns differs
  from the old one in the outbox only: rooms, hosts, viewer sets, sharing flags, the
  address table and the transport groups are unchanged.
\<close>

theorem joinRoom_not_found:
  "rooms_get s roomId = None \<Longrightarrow>
   joinRoom d sid roomId s =
     Inr (s\<lparr>outbox := outbox s @ [SocketEmit sid (Error ''Room not found'')]\<rparr>)"
  by (simp add: joinRoom_def socket_emit_def)

theorem joinRoom_not_found_witness:
  "rooms_get demo ''Z'' = None \<and>
   joinRoom (AddressAware ''1.2.3.4'') ''v3'' ''Z'' demo =
     Inr (demo\<lparr>outbox := [SocketEmit ''v3'' (Error ''Room not found'')]\<rparr>)"
  using joinRoom_not_found [of demo "''Z''" "AddressAware ''1.2.3.4''" "''v3''"]
  by (simp add: rooms_get_def demo_def)

text \<open>
  Claim C6. \<open>createRoom\<close> binds the room identifier to a room whose host is the
  creating connection, whose viewer set is empty and whose sharing flag is false,
  whatever the registry held under that identifier before; every other identifier keeps
  its room; and the only emission is \<open>roomCreated\<close> to the creating connection, so
  the members of a replaced room are told nothing.
\<close>

theorem createRoom_overwrites:
  "rooms_get (createRoom d sid roomId s) roomId =
     Some \<lparr>host = sid,
           hostIP = (case d of AddressAware _ \<Rightarrow> clientIPs s sid | Plain \<Rightarrow> None),
           viewers = {}, isSharing = False\<rparr> \<and>
   outbox (createRoom d sid roomId s) = outbox s @ [SocketEmit sid (RoomCreated roomId)] \<and>
   (\<forall>rid. rid \<noteq> roomId \<longrightarrow> rooms_get (createRoom d sid roomId s) rid = rooms_get s rid)"
  by (simp add: createRoom_def rooms_get_def rooms_set_def socket_join_def socket_emit_def
      update_conv' Let_def)

theorem createRoom_overwrites_witness:
  "rooms_get demo ''R'' = Some demo_room \<and>
   rooms_get (createRoom Plain ''v3'' ''R'' demo) ''R'' =
     Some \<lparr>host = ''v3'', hostIP = None, viewers = {}, isSharing = False\<rparr> \<and>
   outbox (createRoom Plain ''v3'' ''R'' demo) = [SocketEmit ''v3'' (RoomCreated ''R'')] \<and>
   rooms_get (createRoom Plain ''v3'' ''R'' demo) ''Q'' = rooms_get demo ''Q''"
  using createRoom_overwrites [of Plain "''v3''" "''R''" demo]
  by (simp add: rooms_get_def demo_def)

text \<open>
  Claim C7. When \<open>joinRoom\<close> for an existing room is accepted (always in
  \<^verbatim>\<open>socket/index.js\<close>; in \<^verbatim>\<open>socket.js\<close> when the network test does not
  reject), the joining connection is sent \<open>roomJoined\<close> and then
  \<open>hostIsSharing\<close> if the room's sharing flag is set, and \<open>roomJoined\<close> alone if it
  is not; nothing else is emitted.
\<close>

theorem joinRoom_emits:
  assumes "rooms_get s roomId = Some room"
    and "network_restricted d (clientIPs s (host room)) (clientIPs s sid) = Inr False"
  shows "\<exists>s'. joinRoom d sid roomId s = Inr s' \<and>
           outbox s' = outbox s @
             (if isSharing room
              then [SocketEmit sid (RoomJoined roomId), SocketEmit sid (HostIsSharing roomId)]
              else [SocketEmit sid (RoomJoined roomId)])"
  using assms
  by (simp add: joinRoom_def socket_emit_def socket_join_def viewers_add_def Let_def)

theorem joinRoom_emits_witness:
  "rooms_get demo ''R'' = Some demo_room \<and> isSharing demo_room \<and>
   network_restricted (AddressAware ''1.2.3.4'') (clientIPs demo (host demo_room))
     (clientIPs demo ''v3'') = Inr False \<and>
   (\<exists>s'. joinRoom (AddressAware ''1.2.3.4'') ''v3'' ''R'' demo = Inr s' \<and>
      outbox s' = [SocketEmit ''v3'' (RoomJoined ''R''), SocketEmit ''v3'' (HostIsSharing ''R'')])"
proof -
  have r: "rooms_get demo ''R'' = Some demo_room"
    by (simp add: rooms_get_def demo_def)
  have n: "network_restricted (AddressAware ''1.2.3.4'') (clientIPs demo (host demo_room))
     (clientIPs demo ''v3'') = Inr False"
    by (simp add: demo_def demo_room_def network_restricted_def areOnSameLocalNetwork_def
        isLocalIP_def getLocalSubnetPrefix_def substring_def Let_def)
  have o: "outbox demo = []" "isSharing demo_room"
    by (simp_all add: demo_def demo_room_def)
  from joinRoom_emits [OF r n] r n o show ?thesis by simp
qed

subsection \<open>Sharing state\<close>

text \<open>
  Claim C10. The sharing handlers never look at the socket they run on. For an existing
  room and any connection, \<open>startScreenShare\<close> sets the room's sharing flag, changes
  nothing else in the room and emits nothing; \<open>stopScreenShare\<close> clears the flag and
  broadcasts \<open>hostStoppedSharing\<close> to the group named by the room identifier. For a
  room identifier that is not in the registry both leave the state as it is.
\<close>

theorem sharing_unauthorized:
  "(rooms_get s roomId = Some room \<longrightarrow>
      rooms_get (startScreenShare sid roomId s) roomId = Some (room\<lparr>isSharing := True\<rparr>) \<and>
      outbox (startScreenShare sid roomId s) = outbox s \<and>
      rooms_get (stopScreenShare sid roomId s) roomId = Some (room\<lparr>isSharing := False\<rparr>) \<and>
      outbox (stopScreenShare sid roomId s) = outbox s @ [IoToEmit roomId HostStoppedSharing]) \<and>
   (rooms_get s roomId = None \<longrightarrow>
      startScreenShare sid roomId s = s \<and> stopScreenShare sid roomId s = s)"
  by (simp add: startScreenShare_def stopScreenShare_def rooms_get_def set_isSharing_def
      io_to_emit_def map_of_map_entry_if)

text \<open>\<open>v3\<close> is neither the host nor a viewer of \<open>R\<close>; \<open>v1\<close> is a viewer of it.\<close>

theorem sharing_unauthorized_witness:
  "rooms_get demo ''R'' = Some demo_room \<and> ''v3'' \<noteq> host demo_room \<and>
   ''v3'' \<notin> viewers demo_room \<and> ''v1'' \<in> viewers demo_room \<and>
   rooms_get (stopScreenShare ''v3'' ''R'' demo) ''R'' = Some (demo_room\<lparr>isSharing := False\<rparr>) \<and>
   outbox (stopScreenShare ''v3'' ''R'' demo) = [IoToEmit ''R'' HostStoppedSharing] \<and>
   rooms_get (startScreenShare ''v1'' ''R'' demo) ''R'' = Some (demo_room\<lparr>isSharing := True\<rparr>) \<and>
   rooms_get demo ''Z'' = None \<and>
   startScreenShare ''v3'' ''Z'' demo = demo \<and> stopScreenShare ''v3'' ''Z'' demo = demo"
proof -
  have r: "rooms_get demo ''R'' = Some demo_room" and z: "rooms_get demo ''Z'' = None"
    and o: "outbox demo = []"
    by (simp_all add: rooms_get_def demo_def)
  have m: "''v3'' \<noteq> host demo_room" "''v3'' \<notin> viewers demo_room" "''v1'' \<in> viewers demo_room"
    by (simp_all add: demo_room_def)
  from sharing_unauthorized [of demo "''R''" demo_room "''v3''"]
    sharing_unauthorized [of demo "''R''" demo_room "''v1''"]
    sharing_unauthorized [of demo "''Z''" demo_room "''v3''"] r z o m
  show ?thesis by simp
qed

subsection \<open>The disconnect sweep\<close>

lemma forEach_outbox:
  "outbox (rooms_forEach (disconnect_callback sid) es s) =
     outbox s @ concat (map (sweep_out sid) es)"
  by (induction es arbitrary: s)
     (auto simp: disconnect_callback_def sweep_out_def rooms_delete_def io_to_emit_def
        viewers_delete_def Let_def)

lemma forEach_members:
  "members (rooms_forEach (disconnect_callback sid) es s) = members s"
  by (induction es arbitrary: s)
     (auto simp: disconnect_callback_def rooms_delete_def io_to_emit_def viewers_delete_def
        Let_def)

lemma forEach_clientIPs:
  "clientIPs (rooms_forEach (disconnect_callback sid) es s) = clientIPs s"
  by (induction es arbitrary: s)
     (auto simp: disconnect_callback_def rooms_delete_def io_to_emit_def viewers_delete_def
        Let_def)

lemma delete_append_fresh:
  "k \<notin> fst ` set xs \<Longrightarrow> k \<notin> fst ` set ys \<Longrightarrow> AList.delete k (xs @ (k, v) # ys) = xs @ ys"
  by (induction xs) auto

lemma map_entry_append_fresh:
  "k \<notin> fst ` set xs \<Longrightarrow> AList.map_entry k f (xs @ (k, v) # ys) = xs @ (k, f v) # ys"
  by (induction xs) auto

text \<open>
  The loop invariant of \<^verbatim>\<open>forEach\<close>: the table is the swept part followed by the
  entries still to visit.
\<close>

lemma forEach_rooms_inv:
  "distinct (map fst (pre @ es)) \<Longrightarrow> rooms s = pre @ es \<Longrightarrow>
   rooms (rooms_forEach (disconnect_callback sid) es s) =
     pre @ List.map_filter (sweep_entry sid) es"
proof (induction es arbitrary: pre s)
  case Nil
  then show ?case by simp
next
  case (Cons e es)
  obtain rid room where e: "e = (rid, room)" by (cases e)
  from Cons.prems(1) e have fresh: "rid \<notin> fst ` set pre" "rid \<notin> fst ` set es"
    by auto
  show ?case
  proof (cases "host room = sid")
    case True
    let ?s' = "rooms_delete rid (io_to_emit rid HostDisconnected s)"
    have r: "rooms ?s' = pre @ es"
      using Cons.prems(2) e fresh
      by (simp add: rooms_delete_def io_to_emit_def delete_append_fresh)
    have d: "distinct (map fst (pre @ es))" using Cons.prems(1) by auto
    from Cons.IH [OF d r] True e show ?thesis
      by (simp add: disconnect_callback_def sweep_entry_def)
  next
    case False
    show ?thesis
    proof (cases "sid \<in> viewers room")
      case True
      let ?r' = "room\<lparr>viewers := viewers room - {sid}\<rparr>"
      let ?s' = "disconnect_callback sid room rid s"
      have r: "rooms ?s' = (pre @ [(rid, ?r')]) @ es"
        using Cons.prems(2) e fresh False True
        by (simp add: disconnect_callback_def viewers_delete_def io_to_emit_def Let_def
            map_entry_append_fresh)
      have d: "distinct (map fst ((pre @ [(rid, ?r')]) @ es))"
        using Cons.prems(1) e by auto
      from Cons.IH [OF d r] False True e show ?thesis
        by (simp add: sweep_entry_def)
    next
      case nv: False
      have r: "rooms s = (pre @ [(rid, room)]) @ es" using Cons.prems(2) e by simp
      have d: "distinct (map fst ((pre @ [(rid, room)]) @ es))"
        using Cons.prems(1) e by auto
      from Cons.IH [OF d r] False nv e show ?thesis
        by (simp add: sweep_entry_def disconnect_callback_def)
    qed
  qed
qed

lemma disconnect_rooms:
  "distinct (map fst (rooms s)) \<Longrightarrow>
   rooms (disconnect d sid s) = List.map_filter (sweep_entry sid) (rooms s)"
  using forEach_rooms_inv [of "[]" "rooms s" s sid]
  by (cases d) (simp_all add: disconnect_def Let_def)

lemma disconnect_outbox:
  "outbox (disconnect d sid s) = outbox s @ concat (map (sweep_out sid) (rooms s))"
  by (cases d) (simp_all add: disconnect_def forEach_outbox Let_def)

lemma disconnect_members: "members (disconnect d sid s) = members s"
  by (cases d) (simp_all add: disconnect_def forEach_members Let_def)

lemma disconnect_clientIPs:
  "clientIPs (disconnect d sid s) =
     (case d of AddressAware _ \<Rightarrow> (clientIPs s)(sid := None) | Plain \<Rightarrow> clientIPs s)"
  by (simp add: disconnect_def forEach_clientIPs Let_def split: deployment.splits)

lemma forEach_untouched:
  "\<forall>e \<in> set es. host (snd e) \<noteq> sid \<and> sid \<notin> viewers (snd e) \<Longrightarrow>
   rooms_forEach (disconnect_callback sid) es s = s"
  by (induction es arbitrary: s) (auto simp: disconnect_callback_def)

lemma disconnect_untouched:
  assumes "\<forall>e \<in> set (rooms s). host (snd e) \<noteq> sid \<and> sid \<notin> viewers (snd e)"
  shows "disconnect d sid s =
           (case d of
              AddressAware _ \<Rightarrow> s\<lparr>clientIPs := (clientIPs s)(sid := None)\<rparr>
            | Plain \<Rightarrow> s)"
  by (simp add: disconnect_def forEach_untouched [OF assms] split: deployment.splits)

lemma swept_entries:
  "e \<in> set (List.map_filter (sweep_entry sid) rs) \<Longrightarrow>
   host (snd e) \<noteq> sid \<and> sid \<notin> viewers (snd e)"
  by (auto simp: List.map_filter_def sweep_entry_def split: if_splits)

lemma sweep_entry_fst: "sweep_entry sid e = Some e' \<Longrightarrow> fst e' = fst e"
  by (auto simp: sweep_entry_def split: if_splits)

lemma swept_keys: "fst ` set (List.map_filter (sweep_entry sid) rs) \<subseteq> fst ` set rs"
  by (induction rs) (auto dest: sweep_entry_fst split: option.splits)

lemma map_of_swept:
  "distinct (map fst rs) \<Longrightarrow>
   map_of (List.map_filter (sweep_entry sid) rs) rid =
     (case map_of rs rid of
        None \<Rightarrow> None
      | Some room \<Rightarrow> map_option snd (sweep_entry sid (rid, room)))"
proof (induction rs)
  case Nil
  then show ?case by simp
next
  case (Cons e rs)
  obtain k r where e: "e = (k, r)" by (cases e)
  from Cons.prems e have fresh: "k \<notin> fst ` set rs" and d: "distinct (map fst rs)" by auto
  note IH = Cons.IH [OF d]
  show ?case
  proof (cases "sweep_entry sid e")
    case None
    have "map_of (List.map_filter (sweep_entry sid) rs) k = None"
      using fresh swept_keys [of sid rs] by (auto simp: map_of_eq_None_iff)
    moreover have "map_of rs k = None" using fresh by (simp add: map_of_eq_None_iff)
    ultimately show ?thesis using None IH e by simp
  next
    case (Some e')
    with sweep_entry_fst [OF Some] IH e show ?thesis
      by (cases e') auto
  qed
qed

text \<open>
  Claim C9. The disconnect handler is idempotent: run a second time for the same
  connection identity, right after the first, it returns the state unchanged. So the
  registry is the one the first run left, no further room is deleted, and the outbox
  gains nothing: no \<open>hostDisconnected\<close> and no \<open>viewerLeft\<close> is sent again. The
  hypothesis is the uniqueness of keys that the \<^verbatim>\<open>Map\<close> guarantees.
\<close>

theorem disconnect_idempotent:
  assumes "distinct (map fst (rooms s))"
  shows "disconnect d sid (disconnect d sid s) = disconnect d sid s"
proof -
  let ?s1 = "disconnect d sid s"
  have clean: "\<forall>e \<in> set (rooms ?s1). host (snd e) \<noteq> sid \<and> sid \<notin> viewers (snd e)"
    using swept_entries [of _ sid "rooms s"] by (simp add: disconnect_rooms [OF assms])
  show ?thesis
    by (simp add: disconnect_untouched [OF clean] disconnect_clientIPs
        split: deployment.splits)
qed

theorem disconnect_idempotent_witness:
  "distinct (map fst (rooms demo)) \<and>
   disconnect (AddressAware ''1.2.3.4'') ''h1'' (disconnect (AddressAware ''1.2.3.4'') ''h1'' demo) =
     disconnect (AddressAware ''1.2.3.4'') ''h1'' demo \<and>
   disconnect Plain ''v2'' (disconnect Plain ''v2'' demo) = disconnect Plain ''v2'' demo"
proof -
  have d: "distinct (map fst (rooms demo))" by (simp add: demo_def)
  from disconnect_idempotent [OF d] d show ?thesis by simp
qed

lemma filter_key_distinct:
  "distinct (map fst rs) \<Longrightarrow> map_of rs k = Some v \<Longrightarrow> filter (\<lambda>e. fst e = k) rs = [(k, v)]"
proof (induction rs)
  case Nil
  then show ?case by simp
next
  case (Cons e rs)
  show ?case
  proof (cases "fst e = k")
    case True
    with Cons.prems(1) have "\<forall>x \<in> set rs. fst x \<noteq> k"
      by (auto simp: image_iff)
    then have "filter (\<lambda>e. fst e = k) rs = []" by (simp add: filter_empty_conv)
    moreover from True Cons.prems(2) have "e = (k, v)" by (cases e) simp
    ultimately show ?thesis by simp
  next
    case False
    with Cons show ?thesis by (cases e) auto
  qed
qed

lemma count_hostDisconnected:
  "count_list (concat (map (sweep_out sid) rs)) (IoToEmit k HostDisconnected) =
     length (filter (\<lambda>e. host (snd e) = sid) (filter (\<lambda>e. fst e = k) rs))"
  by (induction rs) (auto simp: sweep_out_def)

lemma count_viewerLeft:
  "count_list (concat (map (sweep_out sid) rs)) (IoToEmit h (ViewerLeft sid)) =
     length (filter (\<lambda>e. host (snd e) = h \<and> h \<noteq> sid \<and> h \<noteq> [] \<and> sid \<in> viewers (snd e)) rs)"
  by (induction rs) (auto simp: sweep_out_def)

text \<open>
  Claim C1. Let \<open>R\<close> be a room with host \<open>h\<close>. When \<open>h\<close> disconnects (the transport
  takes \<open>h\<close> out of its groups, then the handler runs), \<open>R\<close> is no longer in the
  registry, and among the emissions of the handler there is exactly one
  \<open>hostDisconnected\<close> broadcast to the group \<open>R\<close>. It is delivered to every viewer of
  \<open>R\<close> (other than the closing socket \<open>h\<close> itself, should it have joined its own
  room), given that the viewers of \<open>R\<close> are members of the group \<open>R\<close>, which
  \<open>joinRoom\<close> ensures. The callback makes the broadcast first and deletes the entry
  after it: the broadcast is made on a table that still holds \<open>R\<close>. The disconnect of
  any connection \<open>c\<close> other than \<open>h\<close> leaves \<open>R\<close> in the registry, with host \<open>h\<close>.
  Keys of the table are unique, as in a \<^verbatim>\<open>Map\<close>.
\<close>

theorem host_disconnect:
  assumes "distinct (map fst (rooms s))"
    and "rooms_get s R = Some room"
    and "host room = h"
    and "viewers room \<subseteq> members s R"
  shows "(\<exists>s' new. step d (OnDisconnect h) s = Inr s' \<and>
           rooms_get s' R = None \<and>
           outbox s' = outbox s @ new \<and>
           count_list new (IoToEmit R HostDisconnected) = 1 \<and>
           (\<forall>v \<in> viewers room. v \<noteq> h \<longrightarrow> v \<in> recipients s' (IoToEmit R HostDisconnected))) \<and>
         (\<forall>s0. disconnect_callback h room R s0 =
                   rooms_delete R (io_to_emit R HostDisconnected s0) \<and>
               rooms (io_to_emit R HostDisconnected s0) = rooms s0) \<and>
         (\<forall>c. c \<noteq> h \<longrightarrow>
            (\<exists>s' room'. step d (OnDisconnect c) s = Inr s' \<and>
               rooms_get s' R = Some room' \<and> host room' = h))"
proof -
  let ?s0 = "socket_leaveAll h s"
  let ?s' = "disconnect d h ?s0"
  have rs: "rooms (socket_leaveAll c s) = rooms s"
    and ob: "outbox (socket_leaveAll c s) = outbox s" for c
    by (simp_all add: socket_leaveAll_def)
  have d: "distinct (map fst (rooms (socket_leaveAll c s)))" for c
    using assms(1) rs by simp
  have m: "map_of (rooms s) R = Some room" using assms(2) by (simp add: rooms_get_def)
  have 1: "rooms_get ?s' R = None"
    using assms(3) m by (simp add: rooms_get_def disconnect_rooms [OF d] rs
        map_of_swept [OF assms(1)] sweep_entry_def)
  have 2: "outbox ?s' = outbox s @ concat (map (sweep_out h) (rooms s))"
    by (simp add: disconnect_outbox rs ob)
  have 3: "count_list (concat (map (sweep_out h) (rooms s))) (IoToEmit R HostDisconnected) = 1"
    using assms(3) by (simp add: count_hostDisconnected filter_key_distinct [OF assms(1) m])
  have 4: "\<forall>v \<in> viewers room. v \<noteq> h \<longrightarrow> v \<in> recipients ?s' (IoToEmit R HostDisconnected)"
    using assms(4) by (auto simp: disconnect_members socket_leaveAll_def)
  have 5: "\<forall>s0. disconnect_callback h room R s0 =
                   rooms_delete R (io_to_emit R HostDisconnected s0) \<and>
                 rooms (io_to_emit R HostDisconnected s0) = rooms s0"
    using assms(3) by (simp add: disconnect_callback_def io_to_emit_def)
  have 6: "\<exists>s' room'. step d (OnDisconnect c) s = Inr s' \<and>
               rooms_get s' R = Some room' \<and> host room' = h" if "c \<noteq> h" for c
    using that assms(3) m
    by (auto simp: rooms_get_def disconnect_rooms [OF d] rs map_of_swept [OF assms(1)]
        sweep_entry_def)
  from 1 2 3 4 have 7: "\<exists>s' new. step d (OnDisconnect h) s = Inr s' \<and>
           rooms_get s' R = None \<and>
           outbox s' = outbox s @ new \<and>
           count_list new (IoToEmit R HostDisconnected) = 1 \<and>
           (\<forall>v \<in> viewers room. v \<noteq> h \<longrightarrow> v \<in> recipients s' (IoToEmit R HostDisconnected))"
    by auto
  show ?thesis
  proof (intro conjI allI impI)
    show "\<exists>s' new. step d (OnDisconnect h) s = Inr s' \<and>
           rooms_get s' R = None \<and>
           outbox s' = outbox s @ new \<and>
           count_list new (IoToEmit R HostDisconnected) = 1 \<and>
           (\<forall>v \<in> viewers room. v \<noteq> h \<longrightarrow> v \<in> recipients s' (IoToEmit R HostDisconnected))"
      by (rule 7)
  qed (use 5 6 in simp_all)
qed

theorem host_disconnect_witness:
  "distinct (map fst (rooms demo)) \<and> rooms_get demo ''R'' = Some demo_room \<and>
   host demo_room = ''h1'' \<and> viewers demo_room \<subseteq> members demo ''R'' \<and>
   (\<exists>s' new. step Plain (OnDisconnect ''h1'') demo = Inr s' \<and>
      rooms_get s' ''R'' = None \<and>
      outbox s' = outbox demo @ new \<and>
      count_list new (IoToEmit ''R'' HostDisconnected) = 1 \<and>
      (\<forall>v \<in> viewers demo_room. v \<noteq> ''h1'' \<longrightarrow> v \<in> recipients s' (IoToEmit ''R'' HostDisconnected))) \<and>
   (\<exists>s' room'. step Plain (OnDisconnect ''v2'') demo = Inr s' \<and>
      rooms_get s' ''R'' = Some room' \<and> host room' = ''h1'')"
proof -
  have d: "distinct (map fst (rooms demo))" and r: "rooms_get demo ''R'' = Some demo_room"
    and h: "host demo_room = ''h1''" and m: "viewers demo_room \<subseteq> members demo ''R''"
    by (simp_all add: demo_def demo_room_def rooms_get_def)
  have ne: "''v2'' \<noteq> ''h1''" by simp
  note t = host_disconnect [OF d r h m, of Plain]
  from t [THEN conjunct1] t [THEN conjunct2, THEN conjunct2, rule_format, OF ne] d r h m
  show ?thesis by simp
qed

text \<open>
  Claim C8, as the code has it. Let \<open>c\<close> be in the viewers of room \<open>R\<close> when \<open>c\<close>
  disconnects. If \<open>c\<close> is not the host of \<open>R\<close>, then \<open>R\<close> stays in the registry with
  the same host, address and sharing flag and with the viewers it had, less \<open>c\<close>, and
  the host of \<open>R\<close> is sent one \<open>viewerLeft(c)\<close> for every room of that host that
  \<open>c\<close> views: at least one, and exactly one when \<open>R\<close> is the only such room. If \<open>c\<close>
  is also the host of \<open>R\<close>, having joined its own room, the host branch of the sweep
  comes first: \<open>R\<close> is deleted and no \<open>viewerLeft(c)\<close> is sent to its host. Keys of
  the table are unique, and a host identity is a non-empty string; both hold in every
  state the server reaches.
\<close>

theorem viewer_disconnect:
  assumes "distinct (map fst (rooms s))"
    and "rooms_get s R = Some room"
    and "c \<in> viewers room"
    and "host room \<noteq> []"
  shows "\<exists>new. outbox (disconnect d c s) = outbox s @ new \<and>
           (host room \<noteq> c \<longrightarrow>
              rooms_get (disconnect d c s) R = Some (room\<lparr>viewers := viewers room - {c}\<rparr>) \<and>
              count_list new (IoToEmit (host room) (ViewerLeft c)) =
                length (filter (\<lambda>e. host (snd e) = host room \<and> c \<in> viewers (snd e)) (rooms s)) \<and>
              1 \<le> count_list new (IoToEmit (host room) (ViewerLeft c)) \<and>
              ((\<forall>e \<in> set (rooms s). fst e \<noteq> R \<longrightarrow>
                  \<not> (host (snd e) = host room \<and> c \<in> viewers (snd e))) \<longrightarrow>
               count_list new (IoToEmit (host room) (ViewerLeft c)) = 1)) \<and>
           (host room = c \<longrightarrow>
              rooms_get (disconnect d c s) R = None \<and>
              count_list new (IoToEmit (host room) (ViewerLeft c)) = 0)"
proof -
  let ?new = "concat (map (sweep_out c) (rooms s))"
  let ?Q = "\<lambda>e. host (snd e) = host room \<and> c \<in> viewers (snd e)"
  have m: "map_of (rooms s) R = Some room" using assms(2) by (simp add: rooms_get_def)
  have mem: "(R, room) \<in> set (rooms s)" by (rule map_of_SomeD [OF m])
  have ob: "outbox (disconnect d c s) = outbox s @ ?new" by (rule disconnect_outbox)
  have keep: "rooms_get (disconnect d c s) R = Some (room\<lparr>viewers := viewers room - {c}\<rparr>)"
    if "host room \<noteq> c"
    using that assms(3) m
    by (simp add: rooms_get_def disconnect_rooms [OF assms(1)] map_of_swept [OF assms(1)]
        sweep_entry_def)
  have cnt: "count_list ?new (IoToEmit (host room) (ViewerLeft c)) = length (filter ?Q (rooms s))"
    if "host room \<noteq> c"
  proof -
    have "filter (\<lambda>e. host (snd e) = host room \<and> host room \<noteq> c \<and> host room \<noteq> [] \<and>
                       c \<in> viewers (snd e)) (rooms s) = filter ?Q (rooms s)"
      using that assms(4) by (intro filter_cong) auto
    then show ?thesis by (simp add: count_viewerLeft)
  qed
  have pos: "1 \<le> length (filter ?Q (rooms s))"
  proof -
    from mem assms(3) have "(R, room) \<in> set (filter ?Q (rooms s))" by simp
    then have "filter ?Q (rooms s) \<noteq> []" by (metis empty_iff list.set(1))
    then show ?thesis by (simp add: Suc_le_eq)
  qed
  have one: "length (filter ?Q (rooms s)) = 1"
    if "\<forall>e \<in> set (rooms s). fst e \<noteq> R \<longrightarrow> \<not> ?Q e"
  proof -
    have "filter ?Q (rooms s) = filter ?Q (filter (\<lambda>e. fst e = R) (rooms s))"
      unfolding filter_filter using that by (intro filter_cong) auto
    also have "\<dots> = [(R, room)]"
      using assms(3) by (simp add: filter_key_distinct [OF assms(1) m])
    finally show ?thesis by simp
  qed
  have gone: "rooms_get (disconnect d c s) R = None" if "host room = c"
    using that m
    by (simp add: rooms_get_def disconnect_rooms [OF assms(1)] map_of_swept [OF assms(1)]
        sweep_entry_def)
  have zero: "count_list ?new (IoToEmit (host room) (ViewerLeft c)) = 0" if "host room = c"
    using that by (simp add: count_viewerLeft)
  show ?thesis
  proof (rule exI [of _ ?new], intro conjI impI)
    show "outbox (disconnect d c s) = outbox s @ ?new" by (rule ob)
  qed (use keep cnt pos one gone zero in simp_all)
qed

theorem viewer_disconnect_witness:
  "distinct (map fst (rooms demo)) \<and> rooms_get demo ''R'' = Some demo_room \<and>
   ''v2'' \<in> viewers demo_room \<and> host demo_room \<noteq> [] \<and> host demo_room \<noteq> ''v2'' \<and>
   length (filter (\<lambda>e. host (snd e) = host demo_room \<and> ''v2'' \<in> viewers (snd e)) (rooms demo)) = 1 \<and>
   (\<exists>new. outbox (disconnect Plain ''v2'' demo) = outbox demo @ new \<and>
      rooms_get (disconnect Plain ''v2'' demo) ''R'' =
        Some (demo_room\<lparr>viewers := viewers demo_room - {''v2''}\<rparr>) \<and>
      count_list new (IoToEmit (host demo_room) (ViewerLeft ''v2'')) = 1)"
proof -
  have d: "distinct (map fst (rooms demo))" and r: "rooms_get demo ''R'' = Some demo_room"
    and v: "''v2'' \<in> viewers demo_room" and n: "host demo_room \<noteq> []"
    and h: "host demo_room \<noteq> ''v2''"
    and l: "length (filter (\<lambda>e. host (snd e) = host demo_room \<and> ''v2'' \<in> viewers (snd e))
              (rooms demo)) = 1"
    by (simp_all add: demo_def demo_room_def rooms_get_def)
  from viewer_disconnect [OF d r v n, of Plain] obtain new where
    new: "outbox (disconnect Plain ''v2'' demo) = outbox demo @ new"
      "host demo_room \<noteq> ''v2'' \<longrightarrow>
         rooms_get (disconnect Plain ''v2'' demo) ''R'' =
           Some (demo_room\<lparr>viewers := viewers demo_room - {''v2''}\<rparr>) \<and>
         count_list new (IoToEmit (host demo_room) (ViewerLeft ''v2'')) =
           length (filter (\<lambda>e. host (snd e) = host demo_room \<and> ''v2'' \<in> viewers (snd e))
             (rooms demo))"
    by blast
  with d r v n h l show ?thesis by auto
qed

text \<open>
  The claim as the specification words it, that a disconnecting viewer of \<open>R\<close> always
  leaves \<open>R\<close> in place and causes exactly one \<open>viewerLeft\<close> to the host of \<open>R\<close>,
  fails in two states the server reaches. When \<open>v\<close> views two rooms of the same host,
  its disconnect sends that host \<open>viewerLeft(v)\<close> twice. When a host has joined its own
  room, it is in the room's viewers, and its disconnect deletes the room and sends no
  \<open>viewerLeft\<close> at all.
\<close>

theorem viewer_disconnect_counterexample:
  "map_sum id rooms (run Plain two_rooms_events init) =
     Inr [(''A'', \<lparr>host = ''h'', hostIP = None, viewers = {''v''}, isSharing = False\<rparr>),
          (''B'', \<lparr>host = ''h'', hostIP = None, viewers = {''v''}, isSharing = False\<rparr>)] \<and>
   map_sum id outbox (run Plain (two_rooms_events @ [OnDisconnect ''v'']) init) =
     Inr [SocketEmit ''h'' (RoomCreated ''A''), SocketEmit ''h'' (RoomCreated ''B''),
          SocketEmit ''v'' (RoomJoined ''A''), SocketEmit ''v'' (RoomJoined ''B''),
          IoToEmit ''h'' (ViewerLeft ''v''), IoToEmit ''h'' (ViewerLeft ''v'')] \<and>
   map_sum id rooms (run Plain self_join_events init) =
     Inr [(''R'', \<lparr>host = ''h'', hostIP = None, viewers = {''h''}, isSharing = False\<rparr>)] \<and>
   map_sum id rooms (run Plain (self_join_events @ [OnDisconnect ''h'']) init) = Inr [] \<and>
   map_sum id outbox (run Plain (self_join_events @ [OnDisconnect ''h'']) init) =
     Inr [SocketEmit ''h'' (RoomCreated ''R''), SocketEmit ''h'' (RoomJoined ''R''),
          IoToEmit ''R'' HostDisconnected]"
  by (simp add: two_rooms_events_def self_join_events_def handler_defs Let_def)

subsection \<open>Relaying ICE candidates by role\<close>

lemma find_hostId_None:
  "find_hostId from rs = None \<longleftrightarrow> (\<forall>e \<in> set rs. from \<notin> viewers (snd e))"
  by (induction "from" rs rule: find_hostId.induct) simp_all

lemma find_hostId_Some:
  "find_hostId from rs = Some h \<Longrightarrow> \<exists>e \<in> set rs. from \<in> viewers (snd e) \<and> host (snd e) = h"
  by (induction "from" rs rule: find_hostId.induct) (auto split: if_splits)

text \<open>
  Claim C4. \<open>iceCandidate\<close> with \<open>to = 'host'\<close>: if some room's viewers contain
  \<open>from\<close>, there is such a room whose host is sent \<open>iceCandidate({from, candidate})\<close>,
  once, and that emission is the only change of state; if no room's viewers contain
  \<open>from\<close>, the state is unchanged: nothing is delivered, no \<open>error\<close> is sent, the
  registry is as before. Host identities are non-empty strings, as Socket.IO socket
  identities are.
\<close>

theorem iceCandidate_to_host:
  "((\<exists>e \<in> set (rooms s). from \<in> viewers (snd e)) \<and> (\<forall>e \<in> set (rooms s). host (snd e) \<noteq> []) \<longrightarrow>
      (\<exists>e \<in> set (rooms s). from \<in> viewers (snd e) \<and>
         iceCandidate sid ''host'' from candidate s =
           s\<lparr>outbox := outbox s @ [IoToEmit (host (snd e)) (IceCandidate from candidate)]\<rparr>)) \<and>
   ((\<forall>e \<in> set (rooms s). from \<notin> viewers (snd e)) \<longrightarrow>
      iceCandidate sid ''host'' from candidate s = s)"
proof (intro conjI impI)
  assume a: "(\<exists>e \<in> set (rooms s). from \<in> viewers (snd e)) \<and> (\<forall>e \<in> set (rooms s). host (snd e) \<noteq> [])"
  then have "find_hostId from (rooms s) \<noteq> None" by (simp add: find_hostId_None)
  then obtain h where h: "find_hostId from (rooms s) = Some h" by blast
  from find_hostId_Some [OF h] obtain e where e: "e \<in> set (rooms s)" "from \<in> viewers (snd e)" "host (snd e) = h"
    by blast
  with a have "h \<noteq> []" by blast
  with h e show "\<exists>e \<in> set (rooms s). from \<in> viewers (snd e) \<and>
         iceCandidate sid ''host'' from candidate s =
           s\<lparr>outbox := outbox s @ [IoToEmit (host (snd e)) (IceCandidate from candidate)]\<rparr>"
    by (auto simp: iceCandidate_def io_to_emit_def intro!: bexI [of _ e])
next
  assume "\<forall>e \<in> set (rooms s). from \<notin> viewers (snd e)"
  then have "find_hostId from (rooms s) = None" by (simp add: find_hostId_None)
  then show "iceCandidate sid ''host'' from candidate s = s" by (simp add: iceCandidate_def)
qed

theorem iceCandidate_to_host_witness:
  "(\<exists>e \<in> set (rooms demo). ''v1'' \<in> viewers (snd e)) \<and>
   list_all (\<lambda>e. host (snd e) \<noteq> []) (rooms demo) \<and>
   (\<exists>e \<in> set (rooms demo). ''v1'' \<in> viewers (snd e) \<and>
      iceCandidate ''v1'' ''host'' ''v1'' ''c0'' demo =
        demo\<lparr>outbox := outbox demo @ [IoToEmit (host (snd e)) (IceCandidate ''v1'' ''c0'')]\<rparr>) \<and>
   list_all (\<lambda>e. ''v3'' \<notin> viewers (snd e)) (rooms demo) \<and>
   iceCandidate ''v3'' ''host'' ''v3'' ''c0'' demo = demo"
proof -
  have a: "\<exists>e \<in> set (rooms demo). ''v1'' \<in> viewers (snd e)"
    and b: "\<forall>e \<in> set (rooms demo). host (snd e) \<noteq> []"
    and c: "\<forall>e \<in> set (rooms demo). ''v3'' \<notin> viewers (snd e)"
    by (simp_all add: demo_def demo_room_def)
  from iceCandidate_to_host [of demo "''v1''" "''v1''" "''c0''"]
    iceCandidate_to_host [of demo "''v3''" "''v3''" "''c0''"] a b c
  show ?thesis unfolding list_all_iff by blast
qed

subsection \<open>The same-subnet join policy\<close>

lemma split_dot_nonempty: "split_dot s \<noteq> []"
  by (induction s) (auto split: list.splits)

lemma split_dot_nodot: "w \<in> set (split_dot s) \<Longrightarrow> CHR ''.'' \<notin> set w"
  by (induction s arbitrary: w) (auto split: list.splits if_splits)

lemma split_dot_single: "CHR ''.'' \<notin> set s \<Longrightarrow> split_dot s = [s]"
  by (induction s) auto

lemma split_dot_app:
  "CHR ''.'' \<notin> set w \<Longrightarrow> split_dot (w @ CHR ''.'' # rest) = w # split_dot rest"
  by (induction w) auto

lemma split_dot_join:
  "\<forall>w \<in> set ws. CHR ''.'' \<notin> set w \<Longrightarrow> split_dot (join_dots ws @ rest) = ws @ split_dot rest"
  by (induction ws) (auto simp: join_dots_def split_dot_app)

lemma join_dots_inj:
  assumes "\<forall>w \<in> set ws. CHR ''.'' \<notin> set w" "\<forall>w \<in> set ws'. CHR ''.'' \<notin> set w"
    and "join_dots ws = join_dots ws'"
  shows "ws = ws'"
proof -
  from split_dot_join [OF assms(1), of "[]"] split_dot_join [OF assms(2), of "[]"] assms(3)
  show ?thesis by simp
qed

lemma lastIndexOf_absent: "lastIndexOf s c = - 1 \<longleftrightarrow> c \<notin> set s"
proof (induction s)
  case Nil
  then show ?case by simp
next
  case (Cons x xs)
  have "lastIndexOf xs c \<ge> - 1" for xs by (induction xs) (auto simp: Let_def)
  from this [of xs] Cons show ?case by (auto simp: Let_def)
qed

lemma lastIndexOf_ge: "lastIndexOf s c \<ge> - 1"
  by (induction s) (auto simp: Let_def)

lemma lastIndexOf_lt: "lastIndexOf s c < int (length s)"
  by (induction s) (auto simp: Let_def)

lemma substring_prefix: "0 \<le> j \<Longrightarrow> j \<le> int (length s) \<Longrightarrow> substring s 0 j = take (nat j) s"
  by (simp add: substring_def Let_def min_def max_def)

lemma length_split_dot: "length (split_dot s) = Suc (count_list s CHR ''.'')"
  by (induction s) (auto split: list.splits)

text \<open>
  What \<^verbatim>\<open>getLocalSubnetPrefix\<close> cuts off: the pieces before the last dot, each
  followed by a dot.
\<close>

lemma take_last_dot:
  "take (nat (lastIndexOf s CHR ''.'' + 1)) s = join_dots (butlast (split_dot s))"
proof (induction s)
  case Nil
  then show ?case by (simp add: join_dots_def)
next
  case (Cons x xs)
  show ?case
  proof (cases "CHR ''.'' \<in> set xs")
    case True
    then have r: "lastIndexOf xs CHR ''.'' \<noteq> - 1" by (simp add: lastIndexOf_absent)
    have ge: "lastIndexOf xs CHR ''.'' \<ge> 0"
      using r lastIndexOf_ge [of xs "CHR ''.''"] by linarith
    from True have "count_list xs CHR ''.'' \<noteq> 0" by (simp add: count_list_0_iff)
    then have "length (split_dot xs) \<ge> 2" by (simp add: length_split_dot)
    then obtain w w' ws where sp: "split_dot xs = w # w' # ws"
      by (cases "split_dot xs" rule: list.exhaust [case_names Nil Cons])
         (auto simp: Suc_le_eq neq_Nil_conv)
    have "take (nat (lastIndexOf (x # xs) CHR ''.'' + 1)) (x # xs) =
            x # take (nat (lastIndexOf xs CHR ''.'' + 1)) xs"
      using r ge by (simp add: Let_def nat_add_distrib)
    also have "\<dots> = x # join_dots (butlast (split_dot xs))" by (simp add: Cons.IH)
    also have "\<dots> = join_dots (butlast (split_dot (x # xs)))"
      by (simp add: sp join_dots_def)
    finally show ?thesis .
  next
    case False
    then have r: "lastIndexOf xs CHR ''.'' = - 1" by (simp add: lastIndexOf_absent)
    from False r show ?thesis
      by (auto simp: join_dots_def split_dot_single Let_def)
  qed
qed

lemma prefix_join:
  "substring s 0 (lastIndexOf s CHR ''.'' + 1) = join_dots (butlast (split_dot s))"
proof -
  have "0 \<le> lastIndexOf s CHR ''.'' + 1" "lastIndexOf s CHR ''.'' + 1 \<le> int (length s)"
    using lastIndexOf_ge [of s "CHR ''.''"] lastIndexOf_lt [of s "CHR ''.''"] by linarith+
  then show ?thesis by (simp add: substring_prefix take_last_dot)
qed

lemma same_network_iff:
  assumes "isLocalIP ip1" "isLocalIP ip2"
  shows "areOnSameLocalNetwork ip1 ip2 \<longleftrightarrow>
           CHR ''.'' \<in> set ip1 \<and> CHR ''.'' \<in> set ip2 \<and> network_part ip1 = network_part ip2"
proof (cases "CHR ''.'' \<in> set ip1 \<and> CHR ''.'' \<in> set ip2")
  case True
  have nd: "\<forall>w \<in> set (butlast (split_dot ip)). CHR ''.'' \<notin> set w" for ip
    using split_dot_nodot [of _ ip] by (auto dest: in_set_butlastD)
  have "join_dots (network_part ip1) = join_dots (network_part ip2) \<longleftrightarrow>
          network_part ip1 = network_part ip2"
    unfolding network_part_def by (rule iffI, rule join_dots_inj [OF nd nd], simp_all)
  with True assms show ?thesis
    by (simp add: areOnSameLocalNetwork_def getLocalSubnetPrefix_def Let_def
        lastIndexOf_absent prefix_join network_part_def)
next
  case False
  with assms show ?thesis
    by (auto simp: areOnSameLocalNetwork_def getLocalSubnetPrefix_def Let_def
        lastIndexOf_absent)
qed

lemma dotted_quad_dot: "dotted_quad ip \<Longrightarrow> CHR ''.'' \<in> set ip"
  by (rule ccontr) (simp add: dotted_quad_def split_dot_single)

lemma dotted_quad_network_part: "dotted_quad ip \<Longrightarrow> network_part ip = first_three_octets ip"
  by (simp add: dotted_quad_def network_part_def first_three_octets_def butlast_conv_take)

lemma network_restricted_Some:
  "network_restricted (AddressAware ip0) (Some hip) (Some vip) =
     Inr (isLocalIP hip \<and> isLocalIP vip \<and> \<not> areOnSameLocalNetwork hip vip)"
  by (auto simp: network_restricted_def Let_def)

text \<open>
  Claim C3, as the code has it. In \<^verbatim>\<open>socket.js\<close>, for an existing room whose
  host and joiner both have an address in \<^verbatim>\<open>clientIPs\<close>, \<open>joinRoom\<close> is rejected
  with the local-network error, the state otherwise unchanged, if and only if both
  addresses are local (\<^verbatim>\<open>isLocalIP\<close>) and either one of them has no dot or their
  parts before the last dot differ. Otherwise the join is accepted: the joiner is added
  to the room's viewers and is sent \<open>roomJoined\<close>. For two dotted quads the part
  before the last dot is the first three octets, so there the rejection is exactly:
  both local, and the first three octets differ.
\<close>

theorem join_policy:
  assumes "rooms_get s roomId = Some room"
    and "clientIPs s (host room) = Some hip"
    and "clientIPs s sid = Some vip"
  shows "(joinRoom (AddressAware ip0) sid roomId s =
            Inr (s\<lparr>outbox := outbox s @ [SocketEmit sid (Error local_network_error)]\<rparr>)
          \<longleftrightarrow> isLocalIP hip \<and> isLocalIP vip \<and>
              (CHR ''.'' \<notin> set hip \<or> CHR ''.'' \<notin> set vip \<or> network_part hip \<noteq> network_part vip)) \<and>
         (joinRoom (AddressAware ip0) sid roomId s \<noteq>
            Inr (s\<lparr>outbox := outbox s @ [SocketEmit sid (Error local_network_error)]\<rparr>)
          \<longrightarrow> (\<exists>s'. joinRoom (AddressAware ip0) sid roomId s = Inr s' \<and>
                 rooms_get s' roomId = Some (room\<lparr>viewers := insert sid (viewers room)\<rparr>) \<and>
                 (\<exists>rest. outbox s' = outbox s @ SocketEmit sid (RoomJoined roomId) # rest))) \<and>
         (dotted_quad hip \<and> dotted_quad vip \<longrightarrow>
            (joinRoom (AddressAware ip0) sid roomId s =
               Inr (s\<lparr>outbox := outbox s @ [SocketEmit sid (Error local_network_error)]\<rparr>)
             \<longleftrightarrow> isLocalIP hip \<and> isLocalIP vip \<and>
                 first_three_octets hip \<noteq> first_three_octets vip))"
proof -
  let ?rej = "s\<lparr>outbox := outbox s @ [SocketEmit sid (Error local_network_error)]\<rparr>"
  let ?cond = "isLocalIP hip \<and> isLocalIP vip \<and> \<not> areOnSameLocalNetwork hip vip"
  have yes: "joinRoom (AddressAware ip0) sid roomId s = Inr ?rej" if ?cond
    using that assms
    by (simp add: joinRoom_def network_restricted_Some socket_emit_def local_network_error_def)
  have no: "\<exists>s'. joinRoom (AddressAware ip0) sid roomId s = Inr s' \<and>
                 rooms_get s' roomId = Some (room\<lparr>viewers := insert sid (viewers room)\<rparr>) \<and>
                 (\<exists>rest. outbox s' = outbox s @ SocketEmit sid (RoomJoined roomId) # rest)"
    if "\<not> ?cond"
  proof -
    from that have nr: "network_restricted (AddressAware ip0) (Some hip) (Some vip) = Inr False"
      by (simp only: network_restricted_Some)
    from assms show ?thesis
      by (simp add: joinRoom_def nr socket_emit_def socket_join_def
          viewers_add_def rooms_get_def map_of_map_entry_if Let_def)
  qed
  have ne: "joinRoom (AddressAware ip0) sid roomId s \<noteq> Inr ?rej" if "\<not> ?cond"
  proof
    assume eq: "joinRoom (AddressAware ip0) sid roomId s = Inr ?rej"
    from no [OF that] obtain s' where s': "joinRoom (AddressAware ip0) sid roomId s = Inr s'"
      and h: "\<exists>rest. outbox s' = outbox s @ SocketEmit sid (RoomJoined roomId) # rest"
      by blast
    from eq s' have "s' = ?rej" by simp
    with h show False by simp
  qed
  have iff: "joinRoom (AddressAware ip0) sid roomId s = Inr ?rej \<longleftrightarrow> ?cond"
    using yes ne by blast
  have c: "?cond \<longleftrightarrow> isLocalIP hip \<and> isLocalIP vip \<and>
              (CHR ''.'' \<notin> set hip \<or> CHR ''.'' \<notin> set vip \<or> network_part hip \<noteq> network_part vip)"
    using same_network_iff [of hip vip] by blast
  have q: "dotted_quad hip \<and> dotted_quad vip \<Longrightarrow>
      ?cond \<longleftrightarrow> isLocalIP hip \<and> isLocalIP vip \<and> first_three_octets hip \<noteq> first_three_octets vip"
    using c dotted_quad_dot dotted_quad_network_part by metis
  show ?thesis
    using iff c q no by blast
qed

theorem join_policy_witness:
  "rooms_get demo ''R'' = Some demo_room \<and>
   clientIPs demo (host demo_room) = Some ''192.168.1.10'' \<and>
   clientIPs demo ''v2'' = Some ''192.168.2.20'' \<and>
   clientIPs demo ''v1'' = Some ''192.168.1.55'' \<and>
   clientIPs demo ''h2'' = Some ''8.8.8.8'' \<and>
   dotted_quad ''192.168.1.10'' \<and> dotted_quad ''192.168.2.20'' \<and>
   dotted_quad ''192.168.1.55'' \<and> dotted_quad ''8.8.8.8'' \<and>
   joinRoom (AddressAware ''1.2.3.4'') ''v2'' ''R'' demo =
     Inr (demo\<lparr>outbox := outbox demo @ [SocketEmit ''v2'' (Error local_network_error)]\<rparr>) \<and>
   (\<exists>s'. joinRoom (AddressAware ''1.2.3.4'') ''v1'' ''R'' demo = Inr s' \<and>
      rooms_get s' ''R'' = Some (demo_room\<lparr>viewers := insert ''v1'' (viewers demo_room)\<rparr>)) \<and>
   (\<exists>s'. joinRoom (AddressAware ''1.2.3.4'') ''h2'' ''R'' demo = Inr s' \<and>
      rooms_get s' ''R'' = Some (demo_room\<lparr>viewers := insert ''h2'' (viewers demo_room)\<rparr>))"
proof -
  have r: "rooms_get demo ''R'' = Some demo_room"
    and h: "clientIPs demo (host demo_room) = Some ''192.168.1.10''"
    and v2: "clientIPs demo ''v2'' = Some ''192.168.2.20''"
    and v1: "clientIPs demo ''v1'' = Some ''192.168.1.55''"
    and h2: "clientIPs demo ''h2'' = Some ''8.8.8.8''"
    by (simp_all add: demo_def demo_room_def rooms_get_def)
  have q: "dotted_quad ''192.168.1.10''" "dotted_quad ''192.168.2.20''"
    "dotted_quad ''192.168.1.55''" "dotted_quad ''8.8.8.8''"
    by (simp_all add: dotted_quad_def)
  have l: "isLocalIP ''192.168.1.10''" "isLocalIP ''192.168.2.20''"
    "isLocalIP ''192.168.1.55''" "\<not> isLocalIP ''8.8.8.8''"
    by (simp_all add: isLocalIP_def)
  have o: "first_three_octets ''192.168.1.10'' \<noteq> first_three_octets ''192.168.2.20''"
    "first_three_octets ''192.168.1.10'' = first_three_octets ''192.168.1.55''"
    by (simp_all add: first_three_octets_def)
  from join_policy [OF r h v2, of "''1.2.3.4''"] join_policy [OF r h v1, of "''1.2.3.4''"]
    join_policy [OF r h h2, of "''1.2.3.4''"] r h v2 v1 h2 q l o
  show ?thesis by blast
qed

text \<open>
  The claim as the specification words it, rejection if and only if both addresses are
  local and their first three octets differ, fails for \<open>localhost\<close>, which
  \<^verbatim>\<open>isLocalIP\<close> counts as local: it has no dot, so
  \<^verbatim>\<open>getLocalSubnetPrefix\<close> is \<^verbatim>\<open>null\<close> and \<^verbatim>\<open>areOnSameLocalNetwork\<close> is
  false. Two connections with the very same address \<open>localhost\<close> cannot join each
  other, although no part of their addresses differs. The state is reached from the
  initial one by \<^verbatim>\<open>registerIP\<close>.
\<close>

theorem join_policy_counterexample:
  "run (AddressAware ''203.0.113.7'')
     [OnConnection ''h'', OnRegisterIP ''h'' ''localhost'', OnCreateRoom ''h'' ''R'',
      OnConnection ''v'', OnRegisterIP ''v'' ''localhost''] init = Inr localhost_demo \<and>
   clientIPs localhost_demo ''h'' = Some ''localhost'' \<and>
   clientIPs localhost_demo ''v'' = Some ''localhost'' \<and>
   joinRoom (AddressAware ''203.0.113.7'') ''v'' ''R'' localhost_demo =
     Inr (localhost_demo\<lparr>outbox := outbox localhost_demo @
            [SocketEmit ''v'' (Error local_network_error)]\<rparr>) \<and>
   \<not> (isLocalIP ''localhost'' \<and> isLocalIP ''localhost'' \<and>
      first_three_octets ''localhost'' \<noteq> first_three_octets ''localhost'')"
proof -
  have 1: "run (AddressAware ''203.0.113.7'')
     [OnConnection ''h'', OnRegisterIP ''h'' ''localhost'', OnCreateRoom ''h'' ''R'',
      OnConnection ''v'', OnRegisterIP ''v'' ''localhost''] init = Inr localhost_demo"
    by (simp add: init_def localhost_demo_def connection_def registerIP_def createRoom_def
        socket_join_def socket_emit_def rooms_set_def Let_def fun_eq_iff)
  have 2: "joinRoom (AddressAware ''203.0.113.7'') ''v'' ''R'' localhost_demo =
     Inr (localhost_demo\<lparr>outbox := outbox localhost_demo @
            [SocketEmit ''v'' (Error local_network_error)]\<rparr>)"
    by (simp add: localhost_demo_def joinRoom_def rooms_get_def network_restricted_def
        areOnSameLocalNetwork_def getLocalSubnetPrefix_def isLocalIP_def socket_emit_def
        local_network_error_def Let_def)
  from 1 2 show ?thesis by (simp add: localhost_demo_def)
qed

subsection \<open>Invariants of the registry\<close>

lemma set_update_cases: "e \<in> set (AList.update k v al) \<Longrightarrow> e = (k, v) \<or> e \<in> set al"
  by (induction al) (auto split: if_splits)

lemma set_delete_subset: "set (AList.delete k al) \<subseteq> set al"
  by (auto simp: AList.delete_eq)

lemma set_map_entry_cases:
  "e \<in> set (AList.map_entry k f al) \<Longrightarrow>
   e \<in> set al \<or> (\<exists>v. map_of al k = Some v \<and> e = (k, f v))"
  by (induction al) (auto split: if_splits)

lemma Ball_map_entry:
  assumes "\<forall>e \<in> set al. P e"
    and "\<And>v. map_of al k = Some v \<Longrightarrow> P (k, v) \<Longrightarrow> P (k, f v)"
  shows "\<forall>e \<in> set (AList.map_entry k f al). P e"
proof
  fix e assume "e \<in> set (AList.map_entry k f al)"
  from set_map_entry_cases [OF this] show "P e"
  proof
    assume "e \<in> set al"
    with assms(1) show ?thesis by blast
  next
    assume "\<exists>v. map_of al k = Some v \<and> e = (k, f v)"
    then obtain v where v: "map_of al k = Some v" "e = (k, f v)" by blast
    from map_of_SomeD [OF v(1)] assms(1) have "P (k, v)" by blast
    from assms(2) [OF v(1) this] v(2) show ?thesis by simp
  qed
qed

lemma hnv_map_entry:
  assumes "\<forall>e \<in> set al. host (snd e) \<notin> viewers (snd e)"
    and "\<And>v. map_of al k = Some v \<Longrightarrow> host v \<notin> viewers v \<Longrightarrow> host (f v) \<notin> viewers (f v)"
  shows "\<forall>e \<in> set (AList.map_entry k f al). host (snd e) \<notin> viewers (snd e)"
  using Ball_map_entry [of al "\<lambda>e. host (snd e) \<notin> viewers (snd e)" k f] assms by simp

text \<open>
  \<open>registry_ok\<close> holds initially and is kept by every event that arrives on a socket
  with a non-empty identity. So the hypotheses on the state made above (unique keys,
  non-empty hosts, viewers inside the room's group) hold in every state the server
  reaches.
\<close>

lemma registry_ok_init: "registry_ok init"
  by (simp add: registry_ok_def init_def)

lemma registry_ok_outbox: "registry_ok (s\<lparr>outbox := ob\<rparr>) = registry_ok s"
  by (simp add: registry_ok_def)

lemma registry_ok_clientIPs: "registry_ok (s\<lparr>clientIPs := c\<rparr>) = registry_ok s"
  by (simp add: registry_ok_def)

lemma registry_ok_socket_join: "registry_ok s \<Longrightarrow> registry_ok (socket_join sid grp s)"
  by (auto simp: registry_ok_def socket_join_def)

lemma registry_ok_createRoom:
  assumes "registry_ok s" "sid \<noteq> []"
  shows "registry_ok (createRoom d sid rid s)"
proof -
  let ?r = "\<lparr>host = sid, hostIP = (case d of AddressAware _ \<Rightarrow> clientIPs s sid | Plain \<Rightarrow> None),
             viewers = {}, isSharing = False\<rparr>"
  have "registry_ok (rooms_set rid ?r s)"
    using assms unfolding registry_ok_def rooms_set_def
    by (auto simp: distinct_update dest!: set_update_cases)
  then show ?thesis
    by (simp add: createRoom_def Let_def socket_emit_def registry_ok_outbox
        registry_ok_socket_join)
qed

lemma registry_ok_map_entry:
  assumes "registry_ok s"
    and "\<And>v. map_of (rooms s) k = Some v \<Longrightarrow> host (f v) = host v \<and> viewers (f v) \<subseteq> viewers v"
  shows "registry_ok (s\<lparr>rooms := AList.map_entry k f (rooms s)\<rparr>)"
proof -
  have "\<forall>e \<in> set (AList.map_entry k f (rooms s)).
          host (snd e) \<noteq> [] \<and> viewers (snd e) \<subseteq> members s (fst e)"
    by (rule Ball_map_entry) (use assms in \<open>auto simp: registry_ok_def\<close>)
  with assms(1) show ?thesis by (simp add: registry_ok_def distinct_map_entry)
qed

lemma registry_ok_joinRoom:
  assumes "registry_ok s" "joinRoom d sid rid s = Inr s'"
  shows "registry_ok s'"
proof (cases "rooms_get s rid")
  case None
  with assms show ?thesis by (auto simp: joinRoom_def socket_emit_def registry_ok_outbox)
next
  case (Some room)
  let ?s2 = "socket_join sid rid (viewers_add rid sid s)"
  have "\<forall>e \<in> set (AList.map_entry rid (\<lambda>r. r\<lparr>viewers := insert sid (viewers r)\<rparr>) (rooms s)).
          host (snd e) \<noteq> [] \<and> viewers (snd e) \<subseteq> members ?s2 (fst e)"
    by (rule Ball_map_entry)
       (use assms(1) in \<open>auto simp: registry_ok_def socket_join_def viewers_add_def\<close>)
  with assms(1) have ok2: "registry_ok ?s2"
    by (simp add: registry_ok_def viewers_add_def socket_join_def distinct_map_entry)
  from assms Some ok2 show ?thesis
    by (auto simp: joinRoom_def socket_emit_def registry_ok_outbox Let_def
        split: sum.splits bool.splits if_splits)
qed

lemma distinct_swept:
  "distinct (map fst rs) \<Longrightarrow> distinct (map fst (List.map_filter (sweep_entry sid) rs))"
proof (induction rs)
  case Nil
  then show ?case by simp
next
  case (Cons e rs)
  then have fresh: "fst e \<notin> fst ` set (List.map_filter (sweep_entry sid) rs)"
    and IH: "distinct (map fst (List.map_filter (sweep_entry sid) rs))"
    using swept_keys [of sid rs] by auto
  show ?case
  proof (cases "sweep_entry sid e")
    case None
    with IH show ?thesis by simp
  next
    case (Some e')
    with fresh IH sweep_entry_fst [OF Some] show ?thesis by simp
  qed
qed

lemma swept_origin:
  assumes "e' \<in> set (List.map_filter (sweep_entry sid) rs)"
  shows "\<exists>e \<in> set rs. fst e' = fst e \<and> host (snd e') = host (snd e) \<and>
     viewers (snd e') \<subseteq> viewers (snd e) - {sid}"
proof -
  from assms obtain e where e: "e \<in> set rs" "sweep_entry sid e = Some e'"
    by (auto simp: List.map_filter_def)
  from e(2) have "fst e' = fst e \<and> host (snd e') = host (snd e) \<and>
     viewers (snd e') \<subseteq> viewers (snd e) - {sid}"
    by (auto simp: sweep_entry_def split: if_splits)
  with e(1) show ?thesis by blast
qed

lemma registry_ok_disconnect:
  assumes "registry_ok s"
  shows "registry_ok (disconnect d sid (socket_leaveAll sid s))"
proof -
  let ?s0 = "socket_leaveAll sid s"
  have d0: "distinct (map fst (rooms ?s0))" and r0: "rooms ?s0 = rooms s"
    using assms by (simp_all add: registry_ok_def socket_leaveAll_def)
  have r: "rooms (disconnect d sid ?s0) = List.map_filter (sweep_entry sid) (rooms s)"
    by (simp add: disconnect_rooms [OF d0] r0)
  have m: "members (disconnect d sid ?s0) = (\<lambda>grp. members s grp - {sid})"
    by (simp add: disconnect_members socket_leaveAll_def)
  have "host (snd e') \<noteq> [] \<and> viewers (snd e') \<subseteq> members s (fst e') - {sid}"
    if "e' \<in> set (List.map_filter (sweep_entry sid) (rooms s))" for e'
    using swept_origin [OF that] assms by (fastforce simp: registry_ok_def)
  with assms show ?thesis
    by (simp add: registry_ok_def r m distinct_swept)
qed

lemma registry_ok_step:
  assumes "registry_ok s" "socket_of e \<noteq> []" "step d e s = Inr s'"
  shows "registry_ok s'"
proof (cases e)
  case (OnJoinRoom sid rid)
  with assms show ?thesis by (auto intro: registry_ok_joinRoom)
next
  case (OnCreateRoom sid rid)
  with assms show ?thesis by (auto intro: registry_ok_createRoom)
next
  case (OnDisconnect sid)
  with assms show ?thesis by (auto intro: registry_ok_disconnect)
next
  case (OnConnection sid)
  with assms registry_ok_socket_join [of s sid sid] show ?thesis
    by (auto simp: connection_def registry_ok_clientIPs split: deployment.splits)
next
  case (OnStartScreenShare sid rid)
  with assms registry_ok_map_entry [of s rid "\<lambda>r. r\<lparr>isSharing := True\<rparr>"] show ?thesis
    by (auto simp: startScreenShare_def set_isSharing_def split: option.splits)
next
  case (OnStopScreenShare sid rid)
  with assms registry_ok_map_entry [of s rid "\<lambda>r. r\<lparr>isSharing := False\<rparr>"] show ?thesis
    by (auto simp: stopScreenShare_def set_isSharing_def io_to_emit_def registry_ok_outbox
        split: option.splits)
qed (use assms in \<open>auto simp: registerIP_def viewerJoined_def offer_def answer_def
      iceCandidate_def io_to_emit_def registry_ok_outbox registry_ok_clientIPs
      split: deployment.splits option.splits if_splits\<close>)

lemma registry_ok_run:
  "registry_ok s \<Longrightarrow> \<forall>e \<in> set evs. socket_of e \<noteq> [] \<Longrightarrow> run d evs s = Inr s' \<Longrightarrow>
   registry_ok s'"
proof (induction evs arbitrary: s)
  case Nil
  then show ?case by simp
next
  case (Cons e evs)
  from Cons.prems(3) obtain s1 where s1: "step d e s = Inr s1" and r: "run d evs s1 = Inr s'"
    by (auto split: sum.splits)
  from Cons.prems(1,2) s1 have "registry_ok s1" by (auto intro: registry_ok_step)
  with Cons.IH [of s1] Cons.prems(2) r show ?case by simp
qed

text \<open>Every kind of event keeps \<open>host_not_viewer\<close>, except a self-join.\<close>

lemma hnv_rooms_eq: "rooms s' = rooms s \<Longrightarrow> host_not_viewer s' = host_not_viewer s"
  by (simp add: host_not_viewer_def)

lemma hnv_viewers_delete:
  assumes "host_not_viewer s"
  shows "host_not_viewer (viewers_delete rid sid s)"
proof -
  have "\<forall>e \<in> set (AList.map_entry rid (\<lambda>r. r\<lparr>viewers := viewers r - {sid}\<rparr>) (rooms s)).
          host (snd e) \<notin> viewers (snd e)"
    by (rule hnv_map_entry) (use assms in \<open>auto simp: host_not_viewer_def\<close>)
  then show ?thesis by (simp add: host_not_viewer_def viewers_delete_def)
qed

lemma hnv_rooms_delete: "host_not_viewer s \<Longrightarrow> host_not_viewer (rooms_delete rid s)"
  by (auto simp: host_not_viewer_def rooms_delete_def AList.delete_eq)

lemma hnv_io_to_emit: "host_not_viewer (io_to_emit target ev s) = host_not_viewer s"
  by (simp add: host_not_viewer_def io_to_emit_def)

lemma hnv_callback:
  "host_not_viewer s \<Longrightarrow> host_not_viewer (disconnect_callback sid room rid s)"
  by (simp add: disconnect_callback_def Let_def hnv_io_to_emit hnv_rooms_delete
      hnv_viewers_delete)

lemma hnv_forEach:
  "host_not_viewer s \<Longrightarrow> host_not_viewer (rooms_forEach (disconnect_callback sid) es s)"
  by (induction es arbitrary: s) (auto simp: hnv_callback)

lemma hnv_disconnect: "host_not_viewer s \<Longrightarrow> host_not_viewer (disconnect d sid s)"
  using hnv_forEach [of s sid "rooms s"]
  by (cases d) (simp_all add: disconnect_def Let_def host_not_viewer_def)

lemma hnv_createRoom: "host_not_viewer s \<Longrightarrow> host_not_viewer (createRoom d sid rid s)"
  unfolding host_not_viewer_def
  by (auto simp: createRoom_def rooms_set_def socket_join_def socket_emit_def Let_def
      dest!: set_update_cases)

lemma hnv_joinRoom:
  assumes "host_not_viewer s" "\<not> is_self_join (OnJoinRoom sid rid) s"
    and "joinRoom d sid rid s = Inr s'"
  shows "host_not_viewer s'"
proof (cases "rooms_get s rid")
  case None
  with assms show ?thesis
    by (auto simp: joinRoom_def socket_emit_def host_not_viewer_def)
next
  case (Some room)
  with assms(2) have ne: "host room \<noteq> sid" by simp
  from Some have m: "map_of (rooms s) rid = Some room" by (simp add: rooms_get_def)
  then have "(rid, room) \<in> set (rooms s)" by (rule map_of_SomeD)
  with assms(1) have hv: "host room \<notin> viewers room" by (auto simp: host_not_viewer_def)
  have "\<forall>e \<in> set (AList.map_entry rid (\<lambda>r. r\<lparr>viewers := insert sid (viewers r)\<rparr>) (rooms s)).
          host (snd e) \<notin> viewers (snd e)"
    by (rule hnv_map_entry) (use assms(1) m ne in \<open>auto simp: host_not_viewer_def\<close>)
  then have add: "host_not_viewer (viewers_add rid sid s)"
    by (simp add: host_not_viewer_def viewers_add_def)
  from assms(3) Some add assms(1) show ?thesis
    by (auto simp: joinRoom_def socket_emit_def socket_join_def Let_def host_not_viewer_def
        split: sum.splits bool.splits if_splits)
qed

lemma hnv_set_isSharing:
  assumes "host_not_viewer s"
  shows "host_not_viewer (set_isSharing rid b s)"
proof -
  have "\<forall>e \<in> set (AList.map_entry rid (\<lambda>r. r\<lparr>isSharing := b\<rparr>) (rooms s)).
          host (snd e) \<notin> viewers (snd e)"
    by (rule hnv_map_entry) (use assms in \<open>auto simp: host_not_viewer_def\<close>)
  then show ?thesis by (simp add: host_not_viewer_def set_isSharing_def)
qed

lemma hnv_step:
  assumes "host_not_viewer s" "\<not> is_self_join e s" "step d e s = Inr s'"
  shows "host_not_viewer s'"
proof (cases e)
  case (OnJoinRoom sid rid)
  with assms show ?thesis by (auto intro: hnv_joinRoom)
next
  case (OnCreateRoom sid rid)
  with assms show ?thesis by (auto intro: hnv_createRoom)
next
  case (OnDisconnect sid)
  have "host_not_viewer (socket_leaveAll sid s)"
    using assms(1) by (simp add: host_not_viewer_def socket_leaveAll_def)
  with assms OnDisconnect show ?thesis by (auto intro: hnv_disconnect)
next
  case (OnStartScreenShare sid rid)
  with assms show ?thesis
    by (auto simp: startScreenShare_def hnv_set_isSharing split: option.splits)
next
  case (OnStopScreenShare sid rid)
  with assms hnv_set_isSharing [of s rid False] show ?thesis
    by (auto simp: stopScreenShare_def io_to_emit_def host_not_viewer_def split: option.splits)
qed (use assms in \<open>auto simp: host_not_viewer_def connection_def registerIP_def
      viewerJoined_def offer_def answer_def iceCandidate_def io_to_emit_def socket_join_def
      split: deployment.splits option.splits if_splits\<close>)

lemma hnv_run:
  "host_not_viewer s \<Longrightarrow> self_join_free d evs s \<Longrightarrow> run d evs s = Inr s' \<Longrightarrow>
   host_not_viewer s'"
proof (induction evs arbitrary: s)
  case Nil
  then show ?case by simp
next
  case (Cons e evs)
  from Cons.prems(3) obtain s1 where s1: "step d e s = Inr s1" and r: "run d evs s1 = Inr s'"
    by (auto split: sum.splits)
  from Cons.prems(2) s1 have nsj: "\<not> is_self_join e s" and f: "self_join_free d evs s1"
    by auto
  from hnv_step [OF Cons.prems(1) nsj s1] have "host_not_viewer s1" .
  from Cons.IH [OF this f r] show ?case .
qed

text \<open>
  Claim C2, as the code has it. \<open>joinRoom\<close> does not compare the joining socket with
  the room's host, so the host enters its own viewers set when it joins its own room,
  and only then: in every state reached from the initial one by a sequence of events in
  which no connection issues \<open>joinRoom\<close> for a room it currently hosts, no room's
  viewers set contains the room's host.
\<close>

theorem host_never_viewer:
  assumes "self_join_free d evs init" and "run d evs init = Inr s"
  shows "\<forall>e \<in> set (rooms s). host (snd e) \<notin> viewers (snd e)"
proof -
  have "host_not_viewer init" by (simp add: host_not_viewer_def init_def)
  from hnv_run [OF this assms] show ?thesis by (simp add: host_not_viewer_def)
qed

theorem host_never_viewer_witness:
  "self_join_free Plain
     [OnConnection ''h'', OnCreateRoom ''h'' ''R'', OnConnection ''v'', OnJoinRoom ''v'' ''R'',
      OnStartScreenShare ''h'' ''R'', OnDisconnect ''v''] init \<and>
   (\<exists>s. run Plain
          [OnConnection ''h'', OnCreateRoom ''h'' ''R'', OnConnection ''v'', OnJoinRoom ''v'' ''R'',
           OnStartScreenShare ''h'' ''R'', OnDisconnect ''v''] init = Inr s \<and>
        (\<forall>e \<in> set (rooms s). host (snd e) \<notin> viewers (snd e)))"
proof -
  let ?evs = "[OnConnection ''h'', OnCreateRoom ''h'' ''R'', OnConnection ''v'',
               OnJoinRoom ''v'' ''R'', OnStartScreenShare ''h'' ''R'', OnDisconnect ''v'']"
  have f: "self_join_free Plain ?evs init"
    by (simp add: handler_defs Let_def)
  have "\<exists>s. run Plain ?evs init = Inr s"
    by (simp add: handler_defs Let_def)
  then obtain s where s: "run Plain ?evs init = Inr s" by blast
  from host_never_viewer [OF f s] f s show ?thesis by blast
qed

text \<open>
  The claim as the specification words it fails in both deployments: after
  \<open>createRoom(R)\<close> and \<open>joinRoom(R)\<close> on the same socket the room's host is also its
  only viewer.
\<close>

theorem host_never_viewer_counterexample:
  "map_sum id rooms
     (run Plain [OnConnection ''h'', OnCreateRoom ''h'' ''R'', OnJoinRoom ''h'' ''R''] init) =
     Inr [(''R'', \<lparr>host = ''h'', hostIP = None, viewers = {''h''}, isSharing = False\<rparr>)] \<and>
   map_sum id rooms
     (run (AddressAware ''203.0.113.7'')
        [OnConnection ''h'', OnCreateRoom ''h'' ''R'', OnJoinRoom ''h'' ''R''] init) =
     Inr [(''R'', \<lparr>host = ''h'', hostIP = Some ''203.0.113.7'', viewers = {''h''},
                   isSharing = False\<rparr>)]"
  by (simp add: handler_defs areOnSameLocalNetwork_def isLocalIP_def Let_def)

end
